theory Spec2Isabelle
  imports Main
begin

section \<open>Python strings\<close>

text \<open>
  A Python \<open>str\<close> is modelled as a \<open>string\<close> whose characters are code points below 256.
  \<open>isspace\<close> is the set of those code points that \<open>str.strip()\<close> removes:
  U+0009..U+000D, U+001C..U+0020, U+0085 and U+00A0.
\<close>

definition newline :: char where
  "newline = CHR 0x0A"

definition tab :: char where
  "tab = CHR 0x09"

definition isspace :: "char \<Rightarrow> bool" where
  "isspace c =
     (let n = (of_char c :: nat)
      in (9 \<le> n \<and> n \<le> 13) \<or> (28 \<le> n \<and> n \<le> 32) \<or> n = 133 \<or> n = 160)"

definition strip :: "string \<Rightarrow> string" where
  "strip s = rev (dropWhile isspace (rev (dropWhile isspace s)))"

text \<open>\<open>l.startswith('>')\<close>\<close>

fun startswith_gt :: "string \<Rightarrow> bool" where
  "startswith_gt [] = False"
| "startswith_gt (c # cs) = (c = CHR ''>'')"

text \<open>\<open>bool(s)\<close> for a string or a list: non-empty.\<close>

definition truthy :: "'a list \<Rightarrow> bool" where
  "truthy xs = (xs \<noteq> [])"

text \<open>
  The text of a file is what text mode reads: every line ends in a newline character.
  Iterating over the file yields its lines, each with its terminating newline kept
  (the last line has none when the file does not end in a newline).
\<close>

fun file_lines :: "string \<Rightarrow> string list" where
  "file_lines [] = []"
| "file_lines (c # cs) =
     (if c = newline then [c] # file_lines cs
      else (case file_lines cs of [] \<Rightarrow> [[c]] | l # ls \<Rightarrow> (c # l) # ls))"

section \<open>picking.py: parsing the cluster report\<close>

subsection \<open>\<open>SEQID = re.compile('>(.+?)\.\.\.').findall\<close>\<close>

text \<open>
  \<open>lazy_group acc s\<close> is the regular expression \<open>(.+?)\.\.\.\<close> tried at the start of
  \<open>s\<close>: the group takes one character that is not a newline, then as few further such
  characters as possible until three dots follow. It returns the group and the text after
  the three dots, or \<open>None\<close> when there is no match.
\<close>

fun lazy_group :: "string \<Rightarrow> string \<Rightarrow> (string \<times> string) option" where
  "lazy_group acc [] = None"
| "lazy_group acc (c # cs) =
     (if c = newline then None
      else if take 3 cs = ''...'' then Some (acc @ [c], drop 3 cs)
      else lazy_group (acc @ [c]) cs)"

text \<open>
  \<open>findall\<close> scans from the left; after a match the scan goes on behind it, otherwise it
  moves on by one character. With one group in the pattern the result is the list of the
  group's texts.
\<close>

function SEQID :: "string \<Rightarrow> string list" where
  "SEQID [] = []"
| "SEQID (c # cs) =
     (if c = CHR ''>'' then
        (case lazy_group [] cs of
           Some (g, r) \<Rightarrow> g # SEQID r
         | None \<Rightarrow> SEQID cs)
      else SEQID cs)"
  by pat_completeness auto
termination
proof -
  have shorter: "length r < length s" if "lazy_group acc s = Some (g, r)" for acc s g r
    using that by (induction acc s rule: lazy_group.induct) (auto split: if_splits)
  show ?thesis
    by (relation "measure length") (auto dest: shorter)
qed

subsection \<open>Exceptions\<close>

text \<open>
  The exception classes the code raises or names. \<open>OSError\<close> stands for every operating
  system error other than \<open>FileNotFoundError\<close>, which is its subclass.
\<close>

datatype exn =
    RuntimeError | CalledProcessError | FileNotFoundError | OSError
  | TypeError | IndexError | KeyError | ValueError

fun isinstance :: "exn \<Rightarrow> exn \<Rightarrow> bool" where
  "isinstance FileNotFoundError OSError = True"
| "isinstance e k = (e = k)"

subsection \<open>\<open>itertools.groupby\<close>\<close>

text \<open>Runs of consecutive elements with the same key, each with its key, in order.\<close>

fun groupby :: "('a \<Rightarrow> 'k) \<Rightarrow> 'a list \<Rightarrow> ('k \<times> 'a list) list" where
  "groupby key [] = []"
| "groupby key (x # xs) =
     (case groupby key xs of
        [] \<Rightarrow> [(key x, [x])]
      | (k, g) # rest \<Rightarrow>
          if k = key x then (k, x # g) # rest else (key x, [x]) # (k, g) # rest)"

subsection \<open>\<open>transform_cluster\<close> and \<open>parse_cdhit_clusters\<close>\<close>

text \<open>\<open>[SEQID(line)[0] for line in cluster]\<close>: indexing an empty match list raises.\<close>

fun seqids_of :: "string list \<Rightarrow> exn + string list" where
  "seqids_of [] = Inr []"
| "seqids_of (line # cluster) =
     (case SEQID line of
        [] \<Rightarrow> Inl IndexError
      | m # _ \<Rightarrow> (case seqids_of cluster of Inl e \<Rightarrow> Inl e | Inr ms \<Rightarrow> Inr (m # ms)))"

definition transform_cluster :: "bool \<Rightarrow> string list \<Rightarrow> exn + string list option" where
  "transform_cluster drop_empty cluster =
     (case seqids_of cluster of
        Inl e \<Rightarrow> Inl e
      | Inr seqids \<Rightarrow>
          Inr (if drop_empty then (if length seqids > 1 then Some seqids else None)
               else Some seqids))"

text \<open>\<open>bool(x)\<close> for an optional list: \<open>None\<close> and the empty list are false.\<close>

fun truthy_opt :: "'a list option \<Rightarrow> bool" where
  "truthy_opt None = False"
| "truthy_opt (Some xs) = truthy xs"

text \<open>
  The result of \<open>parse_cdhit_clusters\<close> is a lazy iterator: the stages run element by
  element while it is consumed. \<open>consume\<close> is that consumption: the clusters yielded, in
  order, and the exception that ended the iteration, if one did. The last stage,
  \<open>filter(bool, ...)\<close>, is part of it.
\<close>

fun consume :: "(exn + string list option) list \<Rightarrow> string list list \<times> exn option" where
  "consume [] = ([], None)"
| "consume (Inl e # rest) = ([], Some e)"
| "consume (Inr r # rest) =
     (case consume rest of
        (cs, e) \<Rightarrow> ((case r of Some c \<Rightarrow> if truthy c then c # cs else cs | None \<Rightarrow> cs), e))"

definition member_groups :: "string list \<Rightarrow> string list list" where
  "member_groups handle =
     map snd (filter (\<lambda>x. \<not> fst x)
       (groupby startswith_gt (filter truthy (map strip handle))))"

definition parse_cdhit_clusters :: "bool \<Rightarrow> string list \<Rightarrow> string list list \<times> exn option" where
  "parse_cdhit_clusters drop_empty handle =
     consume (map (transform_cluster drop_empty) (member_groups handle))"


section \<open>picking.py: running the external tool\<close>

subsection \<open>The file system and the operating system calls\<close>

text \<open>
  A path names a regular file with its text, a directory, or nothing. \<open>os.path.exists\<close>,
  \<open>open\<close> for reading and for writing, and \<open>os.remove\<close> are modelled on it, with the
  errors the operating system answers with.
\<close>

datatype node = File string | Dir

type_synonym fsys = "string \<rightharpoonup> node"

definition os_path_exists :: "fsys \<Rightarrow> string \<Rightarrow> bool" where
  "os_path_exists f p = (f p \<noteq> None)"

definition open_r :: "fsys \<Rightarrow> string \<Rightarrow> exn + string" where
  "open_r f p =
     (case f p of
        None \<Rightarrow> Inl FileNotFoundError
      | Some Dir \<Rightarrow> Inl OSError
      | Some (File text) \<Rightarrow> Inr text)"

text \<open>\<open>os.path.dirname\<close>: the text up to the last slash, without trailing slashes
  unless it consists of slashes only.\<close>

definition dirname :: "string \<Rightarrow> string" where
  "dirname p =
     (let head = rev (dropWhile (\<lambda>c. c \<noteq> CHR ''/'') (rev p))
      in if list_all (\<lambda>c. c = CHR ''/'') head then head
         else rev (dropWhile (\<lambda>c. c = CHR ''/'') (rev head)))"

text \<open>
  \<open>open(p, 'w')\<close> creates or truncates the file. It fails when \<open>p\<close> is a directory and
  when the directory \<open>p\<close> lies in does not exist (a relative name without a directory
  part lies in the working directory, and one directly under the root in the root).
\<close>

definition open_w :: "fsys \<Rightarrow> string \<Rightarrow> exn + fsys" where
  "open_w f p =
     (if f p = Some Dir then Inl OSError
      else if list_all (\<lambda>c. c = CHR ''/'') (dirname p) \<or> f (dirname p) = Some Dir
        then Inr (f(p \<mapsto> File []))
      else Inl FileNotFoundError)"

definition os_remove :: "fsys \<Rightarrow> string \<Rightarrow> exn + fsys" where
  "os_remove f p =
     (case f p of
        None \<Rightarrow> Inl FileNotFoundError
      | Some Dir \<Rightarrow> Inl OSError
      | Some (File text) \<Rightarrow> Inr (f(p := None)))"

subsection \<open>Sample resources\<close>

datatype rtype =
    SampleClusters | MultipleClusters | SampleFasta | MultipleFasta
  | SampleFastq | MultipleFastq | SamplePairedFastq | MultiplePairedFastq

text \<open>
  Modelled from the spec: the classes of \<open>pipeline.pampi.data\<close> are not among the sources.
  A Sample Resource has a name, its backing files and the flag \<open>delete\<close> (the spec's
  \<open>owns_files\<close>); releasing it deletes the backing files if it owns them and leaves them
  untouched otherwise, and is idempotent. Entering a \<open>with\<close> block acquires the resource
  and every exit from the block releases it. Acquisitions, releases and \<open>parse()\<close> calls
  are recorded in the world's trace. The world also records the paths that \<open>os.remove\<close>
  has deleted and the number of names that \<open>util.randname\<close> has drawn.
\<close>

record sample =
  kind :: rtype
  name :: string
  files :: "string list"
  delete :: bool

datatype event = Acquired string | Released string | Parsed string

record world =
  fs :: fsys
  trace :: "event list"
  removed :: "string list"
  drawn :: nat

definition acquire :: "sample \<Rightarrow> world \<Rightarrow> world" where
  "acquire s w = w\<lparr>trace := trace w @ [Acquired (name s)]\<rparr>"

definition release :: "sample \<Rightarrow> world \<Rightarrow> world" where
  "release s w =
     w\<lparr>fs := (if delete s then fs w |` (- set (files s)) else fs w),
       trace := trace w @ [Released (name s)]\<rparr>"

definition with_sample :: "sample \<Rightarrow> (world \<Rightarrow> 'a \<times> world) \<Rightarrow> world \<Rightarrow> 'a \<times> world" where
  "with_sample s body w = (case body (acquire s w) of (r, w') \<Rightarrow> (r, release s w'))"

subsection \<open>The environment\<close>

text \<open>
  What the code calls and this repository does not define is a parameter:
  \<open>shutil.which\<close>, \<open>subprocess.run\<close> (the external tool: its return code, or the exception
  of a failed start, and whatever it does to the files) and \<open>util.randname\<close>, whose
  \<open>n\<close>-th call with a directory and a suffix returns \<open>randname dir suffix n\<close>.
\<close>

record env =
  which :: "string \<Rightarrow> string option"
  run :: "string list \<Rightarrow> fsys \<Rightarrow> (exn + int) \<times> fsys"
  randname :: "string \<Rightarrow> string \<Rightarrow> nat \<Rightarrow> string"

definition util_randname :: "env \<Rightarrow> string \<Rightarrow> string \<Rightarrow> world \<Rightarrow> string \<times> world" where
  "util_randname en dir suffix w = (randname en dir suffix (drawn w), w\<lparr>drawn := Suc (drawn w)\<rparr>)"

text \<open>
  Modelled from the spec: \<open>util.fallible\<close> is not among the sources. The wrapper turns an
  exception of one of the configured kinds into an absent result; a result is passed on,
  and every other exception propagates.
\<close>

definition fallible :: "exn list \<Rightarrow> (exn + 'a) \<times> 's \<Rightarrow> (exn + 'a option) \<times> 's" where
  "fallible kinds r =
     (case r of
        (Inl e, s) \<Rightarrow> if list_ex (isinstance e) kinds then (Inr None, s) else (Inl e, s)
      | (Inr v, s) \<Rightarrow> (Inr (Some v), s))"

subsection \<open>\<open>cdhit\<close>\<close>

text \<open>\<open>str\<close> of an integer.\<close>

fun digits :: "nat \<Rightarrow> string" where
  "digits n =
     (if n < 10 then [char_of (48 + n)]
      else digits (n div 10) @ [char_of (48 + n mod 10)])"

declare digits.simps [simp del]

definition str_int :: "int \<Rightarrow> string" where
  "str_int i = (if i < 0 then CHR ''-'' # digits (nat (- i)) else digits (nat i))"

definition CDHIT :: string where
  "CDHIT = ''cd-hit-est-2d''"

text \<open>The similarity threshold is carried as the text \<open>str\<close> prints for the float.\<close>

record cdhit_options =
  reference :: string
  accurate :: bool
  similarity :: string
  threads :: int
  memory :: int

definition cdhit_body ::
  "env \<Rightarrow> cdhit_options \<Rightarrow> string list \<Rightarrow> string \<Rightarrow> fsys \<Rightarrow> (exn + string \<times> string) \<times> fsys" where
  "cdhit_body en opts input output f =
     (case which en CDHIT of
        None \<Rightarrow> (Inl RuntimeError, f)
      | Some executable \<Rightarrow>
          if executable = [] then (Inl RuntimeError, f)
          else
            (let clusters = output @ ''.clstr'';
                 command =
                   [executable, ''-i'', reference opts, ''-c'', similarity opts,
                    ''-g'', str_int (if accurate opts then 1 else 0),
                    ''-T'', str_int (threads opts), ''-M'', str_int (memory opts),
                    ''-o'', output]
                   @ concat (map (\<lambda>(a, b). [a, b]) (zip [''-i2'', ''-j2''] input))
             in case run en command f of
                  (Inl e, f') \<Rightarrow> (Inl e, f')
                | (Inr returncode, f') \<Rightarrow>
                    if returncode \<noteq> 0 then (Inl RuntimeError, f')
                    else (Inr (output, clusters), f')))"

definition cdhit ::
  "env \<Rightarrow> cdhit_options \<Rightarrow> string list \<Rightarrow> string \<Rightarrow> fsys
     \<Rightarrow> (exn + (string \<times> string) option) \<times> fsys" where
  "cdhit en opts input output f =
     fallible [RuntimeError, CalledProcessError] (cdhit_body en opts input output f)"

subsection \<open>\<open>cdpick\<close>\<close>

text \<open>\<open>'\t'.join(cluster)\<close> and the line \<open>print\<close> writes for it.\<close>

fun join :: "char \<Rightarrow> string list \<Rightarrow> string" where
  "join sep [] = []"
| "join sep [x] = x"
| "join sep (x # y # ys) = x @ sep # join sep (y # ys)"

definition print_line :: "string list \<Rightarrow> string" where
  "print_line cluster = join tab cluster @ [newline]"

definition cluster_text :: "string list list \<Rightarrow> string" where
  "cluster_text clusters = concat (map print_line clusters)"

text \<open>
  Lines 94 to 96: both files are opened, then every cluster the parser yields is printed
  to the output; an exception of the parser leaves the lines printed so far in the file.
  The report is read while it is iterated, after the output has been opened: when both
  paths are the same file, it has been truncated by then and there is nothing to read.
\<close>

definition write_clusters :: "bool \<Rightarrow> string \<Rightarrow> string \<Rightarrow> fsys \<Rightarrow> exn option \<times> fsys" where
  "write_clusters drop_empty clusterfile output' f =
     (case open_r f clusterfile of
        Inl e \<Rightarrow> (Some e, f)
      | Inr text \<Rightarrow>
          (case open_w f output' of
             Inl e \<Rightarrow> (Some e, f)
           | Inr f' \<Rightarrow>
               (case parse_cdhit_clusters drop_empty
                       (if output' = clusterfile then [] else file_lines text) of
                  (clusters, err) \<Rightarrow>
                    (err, f'(output' \<mapsto> File (cluster_text clusters))))))"

text \<open>
  The body of \<open>with input:\<close>, lines 90 to 104. When \<open>cdhit\<close> returns \<open>None\<close>, unpacking it
  into \<open>seqs, clusterfile\<close> raises \<open>TypeError\<close>.
\<close>

definition cdpick_with ::
  "env \<Rightarrow> sample \<Rightarrow> string option \<Rightarrow> string \<Rightarrow> string \<Rightarrow> bool \<Rightarrow> cdhit_options
     \<Rightarrow> world \<Rightarrow> (exn + sample) \<times> world" where
  "cdpick_with en input output output' cdhit_tempout drop_empty opts w =
     (case cdhit en opts (files input) cdhit_tempout (fs w) of
        (Inl e, f1) \<Rightarrow> (Inl e, w\<lparr>fs := f1\<rparr>)
      | (Inr None, f1) \<Rightarrow> (Inl TypeError, w\<lparr>fs := f1\<rparr>)
      | (Inr (Some (seqs, clusterfile)), f1) \<Rightarrow>
          (case write_clusters drop_empty clusterfile output' f1 of
             (Some e, f2) \<Rightarrow> (Inl e, w\<lparr>fs := f2\<rparr>)
           | (None, f2) \<Rightarrow>
               (case os_remove f2 seqs of
                  Inl e \<Rightarrow> (Inl e, w\<lparr>fs := f2\<rparr>)
                | Inr f3 \<Rightarrow>
                    (case os_remove f3 clusterfile of
                       Inl e \<Rightarrow> (Inl e, w\<lparr>fs := f3, removed := removed w @ [seqs]\<rparr>)
                     | Inr f4 \<Rightarrow>
                         (Inr \<lparr>kind = SampleClusters, name = name input,
                               files = [output'], delete = (output = None)\<rparr>,
                          w\<lparr>fs := f4, removed := removed w @ [seqs, clusterfile]\<rparr>)))))"

definition cdpick_body ::
  "env \<Rightarrow> string \<Rightarrow> sample \<Rightarrow> string option \<Rightarrow> bool \<Rightarrow> cdhit_options
     \<Rightarrow> world \<Rightarrow> (exn + sample) \<times> world" where
  "cdpick_body en tmpdir input output drop_empty opts w =
     (if \<not> os_path_exists (fs w) tmpdir then (Inl ValueError, w)
      else
        (case (case output of None \<Rightarrow> util_randname en tmpdir [] w | Some out \<Rightarrow> (out, w)) of
           (output', w1) \<Rightarrow>
             (case util_randname en tmpdir [] w1 of
                (cdhit_tempout, w2) \<Rightarrow>
                  with_sample input
                    (cdpick_with en input output output' cdhit_tempout drop_empty opts) w2)))"

definition cdpick ::
  "env \<Rightarrow> string \<Rightarrow> sample \<Rightarrow> string option \<Rightarrow> bool \<Rightarrow> cdhit_options
     \<Rightarrow> world \<Rightarrow> (exn + sample option) \<times> world" where
  "cdpick en tmpdir input output drop_empty opts w =
     fallible [RuntimeError, FileNotFoundError]
       (cdpick_body en tmpdir input output drop_empty opts w)"


subsection \<open>Batch clustering\<close>

text \<open>
  Modelled from the spec: \<open>cdpick_multiple\<close>, the batch caller of \<open>cdpick\<close>, is not among
  the sources. It clusters the samples one after the other, each with the output path
  chosen for it; an absent result stands for a sample that was skipped, and an exception
  that \<open>cdpick\<close> lets through aborts the run.
\<close>

fun cdpick_multiple ::
  "env \<Rightarrow> string \<Rightarrow> (sample \<Rightarrow> string option) \<Rightarrow> bool \<Rightarrow> cdhit_options
     \<Rightarrow> sample list \<Rightarrow> world \<Rightarrow> (exn + sample option list) \<times> world" where
  "cdpick_multiple en tmpdir output_for drop_empty opts [] w = (Inr [], w)"
| "cdpick_multiple en tmpdir output_for drop_empty opts (s # ss) w =
     (case cdpick en tmpdir s (output_for s) drop_empty opts w of
        (Inl e, w') \<Rightarrow> (Inl e, w')
      | (Inr r, w') \<Rightarrow>
          (case cdpick_multiple en tmpdir output_for drop_empty opts ss w' of
             (Inl e, w'') \<Rightarrow> (Inl e, w'')
           | (Inr rs, w'') \<Rightarrow> (Inr (r # rs), w'')))"

section \<open>The cluster-membership file\<close>

text \<open>\<open>str.split(sep)\<close> with a separator of one character.\<close>

fun split_on :: "char \<Rightarrow> string \<Rightarrow> string list" where
  "split_on sep [] = [[]]"
| "split_on sep (c # cs) =
     (if c = sep then [] # split_on sep cs
      else (case split_on sep cs of [] \<Rightarrow> [[c]] | w # ws \<Rightarrow> (c # w) # ws))"

definition chomp :: "string \<Rightarrow> string" where
  "chomp l = (if l \<noteq> [] \<and> last l = newline then butlast l else l)"

text \<open>
  Modelled from the spec: the reader of the cluster-membership format is not among the
  sources. The file has one cluster per line and the identifiers of a cluster are
  separated by tabs, so each line, without its newline, is split at the tabs.
\<close>

definition read_clusters :: "string \<Rightarrow> string list list" where
  "read_clusters text = map (\<lambda>l. split_on tab (chomp l)) (file_lines text)"

section \<open>The pipeline compiler\<close>

text \<open>
  Modelled from the spec: \<open>pipeline.core\<close> (\<open>Map\<close>, \<open>Router\<close>, \<open>pcompile\<close>) is not among the
  sources. An alternative declares an input and an output type and carries a
  transformation, which works on the state of the run and may fail. A stage is a name
  and its alternatives. \<open>pcompile\<close> walks the stages once with the current type: the
  alternative whose input type is the current type is selected and its output type
  becomes the current type; a stage without such an alternative is a \<open>TypeMismatch\<close>
  with the stage's name, the current type and the input types the stage accepts.
  The result is the composed transformation, given here as the selected alternatives in
  stage order, each with the name of its stage.
\<close>

record 'st alternative =
  in_type :: rtype
  out_type :: rtype
  transform :: "'st \<Rightarrow> exn + 'st"

record 'st router =
  stage_name :: string
  alternatives :: "'st alternative list"

datatype perror = TypeMismatch string rtype "rtype list"

fun pcompile :: "'st router list \<Rightarrow> rtype \<Rightarrow> perror + (string \<times> 'st alternative) list" where
  "pcompile [] t = Inr []"
| "pcompile (r # rs) t =
     (case filter (\<lambda>m. in_type m = t) (alternatives r) of
        [] \<Rightarrow> Inl (TypeMismatch (stage_name r) t (map in_type (alternatives r)))
      | m # _ \<Rightarrow>
          (case pcompile rs (out_type m) of
             Inl e \<Rightarrow> Inl e
           | Inr ms \<Rightarrow> Inr ((stage_name r, m) # ms)))"

text \<open>
  Running the composed transformation: the selected transformations run in stage order,
  each on the state the previous one left, until one fails. The names of the stages whose
  transformation has been invoked are recorded.
\<close>

fun execute ::
  "(string \<times> 'st alternative) list \<Rightarrow> 'st \<Rightarrow> (exn + 'st) \<times> string list" where
  "execute [] st = (Inr st, [])"
| "execute ((n, m) # ms) st =
     (case transform m st of
        Inl e \<Rightarrow> (Inl e, [n])
      | Inr st' \<Rightarrow> (case execute ms st' of (r, invoked) \<Rightarrow> (r, n # invoked)))"

text \<open>
  A run is \<open>pcompile(routers, t)(samples)\<close>: the composed transformation is applied only
  once \<open>pcompile\<close> has returned it. The result is the outcome and the stages invoked.
\<close>

datatype 'st outcome = Rejected perror | Failed exn | Finished 'st

definition run_pipeline :: "'st router list \<Rightarrow> rtype \<Rightarrow> 'st \<Rightarrow> 'st outcome \<times> string list" where
  "run_pipeline routers t st =
     (case pcompile routers t of
        Inl e \<Rightarrow> (Rejected e, [])
      | Inr ms \<Rightarrow>
          (case execute ms st of
             (Inl e, invoked) \<Rightarrow> (Failed e, invoked)
           | (Inr st', invoked) \<Rightarrow> (Finished st', invoked)))"

text \<open>The type that reaches the end of a list of stages, when every stage accepts the
  type carried to it.\<close>

fun carried :: "'st router list \<Rightarrow> rtype \<Rightarrow> rtype option" where
  "carried [] t = Some t"
| "carried (r # rs) t =
     (case find (\<lambda>m. in_type m = t) (alternatives r) of
        None \<Rightarrow> None
      | Some m \<Rightarrow> carried rs (out_type m))"

section \<open>pampi.py\<close>

subsection \<open>\<open>pipeline\<close>: the samples of the input table\<close>

definition INPUT_DTYPE_DISPATCH :: "string \<Rightarrow> (rtype \<times> rtype) option" where
  "INPUT_DTYPE_DISPATCH dtype =
     (if dtype = ''clusters'' then Some (SampleClusters, MultipleClusters)
      else if dtype = ''fasta'' then Some (SampleFasta, MultipleFasta)
      else if dtype = ''fastq'' then Some (SampleFastq, MultipleFastq)
      else if dtype = ''paired_fastq'' then Some (SamplePairedFastq, MultiplePairedFastq)
      else None)"

text \<open>
  Modelled from the spec: the constructors of the sample classes are not among the
  sources. The number of files must match the format, one for clusters, FASTA and FASTQ
  and two for paired FASTQ; a call with another number of positional arguments is a
  \<open>TypeError\<close>.
\<close>

fun nfiles :: "rtype \<Rightarrow> nat" where
  "nfiles SamplePairedFastq = 2"
| "nfiles MultiplePairedFastq = 2"
| "nfiles t = 1"

definition new_sample :: "rtype \<Rightarrow> string \<Rightarrow> string list \<Rightarrow> bool \<Rightarrow> exn + sample" where
  "new_sample single_t nm fls del =
     (if length fls = nfiles single_t
      then Inr \<lparr>kind = single_t, name = nm, files = fls, delete = del\<rparr>
      else Inl TypeError)"

text \<open>
  Lines 87 to 94: the data type selects the classes (a name that is not in the table
  is a \<open>KeyError\<close>); every row \<open>name, *files\<close> of the table becomes
  \<open>single_t(name, *files, delete=False)\<close>; a \<open>TypeError\<close> or \<open>IndexError\<close> becomes a
  \<open>ValueError\<close>, which is also what unpacking a row without columns raises.
\<close>

fun table_samples :: "rtype \<Rightarrow> string list list \<Rightarrow> exn + sample list" where
  "table_samples single_t [] = Inr []"
| "table_samples single_t ([] # rows) = Inl ValueError"
| "table_samples single_t ((nm # fls) # rows) =
     (case new_sample single_t nm fls False of
        Inl e \<Rightarrow> Inl e
      | Inr s \<Rightarrow>
          (case table_samples single_t rows of Inl e \<Rightarrow> Inl e | Inr ss \<Rightarrow> Inr (s # ss)))"

definition pipeline_samples :: "string \<Rightarrow> string list list \<Rightarrow> exn + sample list" where
  "pipeline_samples dtype rows =
     (case INPUT_DTYPE_DISPATCH dtype of
        None \<Rightarrow> Inl KeyError
      | Some (single_t, multiple_t) \<Rightarrow>
          (case table_samples single_t rows of
             Inl e \<Rightarrow> Inl (if isinstance e TypeError \<or> isinstance e IndexError then ValueError else e)
           | Inr samples \<Rightarrow> Inr samples))"

subsection \<open>\<open>sample_filter\<close>\<close>

text \<open>
  \<open>size_filt\<close>, lines 140 to 146, consumed by \<open>list\<close> on line 150. \<open>sample.parse()\<close> is a
  parameter: \<open>parse s\<close> are the records of \<open>s\<close> and \<open>truth\<close> is \<open>bool\<close> on a record; each call
  is recorded in the trace. \<open>sample.release()\<close> is the release of a Sample Resource.
\<close>

fun size_filt ::
  "(sample \<Rightarrow> 'r list) \<Rightarrow> ('r \<Rightarrow> bool) \<Rightarrow> int \<Rightarrow> sample list \<Rightarrow> world
     \<Rightarrow> sample list \<times> world" where
  "size_filt parse truth nseq [] w = ([], w)"
| "size_filt parse truth nseq (s # ss) w =
     (let w1 = w\<lparr>trace := trace w @ [Parsed (name s)]\<rparr>
      in if sum_list (map (\<lambda>r. if truth r then 1 else 0) (parse s)) \<ge> nseq
         then (case size_filt parse truth nseq ss w1 of (kept, w') \<Rightarrow> (s # kept, w'))
         else size_filt parse truth nseq ss (release s w1))"

section \<open>Cluster reports\<close>

text \<open>
  A cluster report is a list of blocks. A block is a header line, which is a line that
  starts with \<open>>\<close> once stripped, and its member lines. A member line is given by the
  text before the identifier, the identifier and the text after it: the line is
  \<open>pre>ident...post\<close>. It is well formed when \<open>pre\<close> has a character that is not white
  space and no \<open>>\<close> (so the line is not a header and the identifier's marker is the first
  \<open>>\<close>), and the identifier is not empty, has no newline and ends where three dots first
  follow it. A well-formed block has at least one member line.
\<close>


definition member_line :: "string \<times> string \<times> string \<Rightarrow> string" where
  "member_line m = (case m of (pre, ident, post) \<Rightarrow> pre @ ''>'' @ ident @ ''...'' @ post)"

definition ident_of :: "string \<times> string \<times> string \<Rightarrow> string" where
  "ident_of m = fst (snd m)"

definition ends_at_first_dots :: "string \<Rightarrow> bool" where
  "ends_at_first_dots ident =
     list_all (\<lambda>k. take 3 (drop k (ident @ ''...'')) \<noteq> ''...'') [1..<length ident]"

definition wf_member :: "string \<times> string \<times> string \<Rightarrow> bool" where
  "wf_member m =
     (case m of (pre, ident, post) \<Rightarrow>
        list_ex (\<lambda>c. \<not> isspace c) pre \<and> CHR ''>'' \<notin> set pre \<and>
        ident \<noteq> [] \<and> newline \<notin> set ident \<and> ends_at_first_dots ident)"

definition wf_block :: "string \<times> (string \<times> string \<times> string) list \<Rightarrow> bool" where
  "wf_block b = (case b of (h, ms) \<Rightarrow> startswith_gt (strip h) \<and> ms \<noteq> [] \<and> list_all wf_member ms)"

definition report_lines :: "(string \<times> (string \<times> string \<times> string) list) list \<Rightarrow> string list" where
  "report_lines blocks = concat (map (\<lambda>b. fst b # map member_line (snd b)) blocks)"

definition block_ids :: "string \<times> (string \<times> string \<times> string) list \<Rightarrow> string list" where
  "block_ids b = map ident_of (snd b)"

definition stripped_block :: "string \<times> (string \<times> string \<times> string) list \<Rightarrow> string list" where
  "stripped_block b = map (\<lambda>m. strip (member_line m)) (snd b)"

section \<open>The paths of an invocation\<close>

text \<open>
  The paths \<open>cdpick\<close> works with, lines 87 and 88: the output path is the caller's or the
  first name drawn; the name for the tool's output is the next name drawn. \<open>draws\<close> is
  the number of names drawn.
\<close>

definition output_path :: "env \<Rightarrow> string \<Rightarrow> string option \<Rightarrow> world \<Rightarrow> string" where
  "output_path en tmpdir output w =
     (case output of None \<Rightarrow> randname en tmpdir [] (drawn w) | Some out \<Rightarrow> out)"

definition tempout_path :: "env \<Rightarrow> string \<Rightarrow> string option \<Rightarrow> world \<Rightarrow> string" where
  "tempout_path en tmpdir output w =
     randname en tmpdir [] (case output of None \<Rightarrow> Suc (drawn w) | Some out \<Rightarrow> drawn w)"

definition draws :: "string option \<Rightarrow> nat" where
  "draws output = (case output of None \<Rightarrow> 2 | Some out \<Rightarrow> 1)"

section \<open>An example environment\<close>

text \<open>
  A tool that exits with the return code \<open>returncode command\<close> and, when that is zero,
  writes its sequence file to the path after \<open>-o\<close> and the given report beside it; a
  file system with a temporary directory and three input files.
\<close>

definition example_env :: "(string list \<Rightarrow> int) \<Rightarrow> string \<Rightarrow> env" where
  "example_env returncode report =
     \<lparr>which = (\<lambda>cmd. Some (''/usr/bin/'' @ cmd)),
      run = (\<lambda>command f.
        if returncode command = 0
        then (Inr 0, f(command ! 12 \<mapsto> File [], command ! 12 @ ''.clstr'' \<mapsto> File report))
        else (Inr (returncode command), f)),
      randname = (\<lambda>dir suffix n. dir @ ''/tmp'' @ digits n @ suffix)\<rparr>"

definition example_world :: world where
  "example_world =
     \<lparr>fs = [''/tmp'' \<mapsto> Dir, ''/data'' \<mapsto> Dir, ''/data/a.fa'' \<mapsto> File ''>a'',
            ''/data/b.fa'' \<mapsto> File ''>b'', ''/data/c.fa'' \<mapsto> File ''>c''],
      trace = [], removed = [], drawn = 0\<rparr>"

definition example_sample :: "string \<Rightarrow> bool \<Rightarrow> sample" where
  "example_sample nm del =
     \<lparr>kind = SampleFasta, name = nm, files = [''/data/'' @ nm @ ''.fa''], delete = del\<rparr>"

definition example_options :: cdhit_options where
  "example_options =
     \<lparr>reference = ''/data/ref.fa'', accurate = False, similarity = ''0.97'',
      threads = 1, memory = 1000\<rparr>"

definition example_report :: string where
  "example_report = ''>Cluster 0\<newline>0 >ref... *\<newline>1 >seqA... at\<newline>>Cluster 1\<newline>0 >ref2... *\<newline>''"

text \<open>
  Example stages whose transformations append the stage's name to the state, with the
  types of the filter and joiner commands of \<open>pampi.py\<close>, and example records for the
  three samples.
\<close>

definition example_stage :: "string \<Rightarrow> (rtype \<times> rtype) list \<Rightarrow> string list router" where
  "example_stage nm types =
     \<lparr>stage_name = nm,
      alternatives =
        map (\<lambda>(a, b). \<lparr>in_type = a, out_type = b, transform = (\<lambda>st. Inr (st @ [nm]))\<rparr>) types\<rparr>"

definition filter_stage :: "string list router" where
  "filter_stage = example_stage ''filter'' [(MultiplePairedFastq, MultiplePairedFastq)]"

definition joiner_stage :: "string list router" where
  "joiner_stage =
     example_stage ''joiner''
       [(MultipleFasta, SampleFasta), (MultipleFastq, SampleFastq),
        (MultipleClusters, SampleClusters), (MultiplePairedFastq, SamplePairedFastq)]"

definition example_parse :: "sample \<Rightarrow> bool list" where
  "example_parse s =
     (if name s = ''a'' then []
      else if name s = ''b'' then [True, False, True, True]
      else [True, True, True, True, True])"

section \<open>Properties of the cluster report parser\<close>

lemma take_prefix: "n \<le> length xs \<Longrightarrow> take n (xs @ ys) = take n xs"
  by simp

lemma lazy_group_ident:
  "ident \<noteq> [] \<Longrightarrow> newline \<notin> set ident \<Longrightarrow>
   (\<forall>k. 1 \<le> k \<and> k < length ident \<longrightarrow> take 3 (drop k (ident @ ''...'')) \<noteq> ''...'') \<Longrightarrow>
   lazy_group acc (ident @ ''...'' @ post) = Some (acc @ ident, post)"
proof (induction ident arbitrary: acc)
  case Nil
  then show ?case by simp
next
  case (Cons c cs)
  show ?case
  proof (cases "cs = []")
    case True
    with Cons.prems show ?thesis by simp
  next
    case False
    have len: "3 \<le> length (cs @ ''...'')" by simp
    have "take 3 (drop 1 ((c # cs) @ ''...'')) \<noteq> ''...''"
      using Cons.prems(3) False by (metis One_nat_def Suc_less_eq length_Cons length_greater_0_conv order_refl)
    moreover have "take 3 ((cs @ ''...'') @ post) = take 3 (cs @ ''...'')"
      using len by (intro take_prefix)
    ultimately have ne: "take 3 (cs @ ''...'' @ post) \<noteq> ''...''"
      by simp
    have step: "\<forall>k. 1 \<le> k \<and> k < length cs \<longrightarrow> take 3 (drop k (cs @ ''...'')) \<noteq> ''...''"
    proof (intro allI impI)
      fix k assume k: "1 \<le> k \<and> k < length cs"
      then have "take 3 (drop (Suc k) ((c # cs) @ ''...'')) \<noteq> ''...''"
        using Cons.prems(3) by (metis Suc_less_eq le_SucI length_Cons)
      then show "take 3 (drop k (cs @ ''...'')) \<noteq> ''...''" by simp
    qed
    have "lazy_group (acc @ [c]) (cs @ ''...'' @ post) = Some ((acc @ [c]) @ cs, post)"
      using Cons.IH [OF False _ step] Cons.prems(2) by simp
    with ne Cons.prems(2) show ?thesis by auto
  qed
qed

lemma SEQID_skip:
  "CHR ''>'' \<notin> set pre \<Longrightarrow> lazy_group [] s = Some (g, r) \<Longrightarrow>
   SEQID (pre @ CHR ''>'' # s) = g # SEQID r"
  by (induction pre) auto

lemma SEQID_none:
  "CHR ''>'' \<notin> set s \<Longrightarrow> SEQID s = []"
  by (induction s) auto

lemma strip_core:
  "\<not> isspace c \<Longrightarrow> \<not> isspace d \<Longrightarrow>
   strip (pre @ c # mid @ d # post) =
     dropWhile isspace pre @ c # mid @ d # rev (dropWhile isspace (rev post))"
  by (simp add: strip_def dropWhile_append3)

lemma not_space_gt: "\<not> isspace CHR ''>''"
  by (simp add: isspace_def)

lemma not_space_dot: "\<not> isspace CHR ''.''"
  by (simp add: isspace_def)

lemma strip_member_line:
  "strip (member_line (pre, ident, post)) =
     dropWhile isspace pre @ CHR ''>'' # ident @ ''...'' @ rev (dropWhile isspace (rev post))"
  using strip_core [OF not_space_gt not_space_dot, of pre "ident @ ''..''" post]
  by (simp add: member_line_def)


lemma member_line_stripped:
  assumes "wf_member (pre, ident, post)"
  shows "truthy (strip (member_line (pre, ident, post)))"
    and "\<not> startswith_gt (strip (member_line (pre, ident, post)))"
    and "\<exists>rest. SEQID (strip (member_line (pre, ident, post))) = ident # rest"
proof -
  let ?pre = "dropWhile isspace pre"
  let ?post = "rev (dropWhile isspace (rev post))"
  have s: "strip (member_line (pre, ident, post)) = ?pre @ CHR ''>'' # ident @ ''...'' @ ?post"
    by (rule strip_member_line)
  show "truthy (strip (member_line (pre, ident, post)))"
    by (simp add: s truthy_def)
  from assms have ex: "\<exists>c\<in>set pre. \<not> isspace c" and gt: "CHR ''>'' \<notin> set pre"
    by (auto simp: wf_member_def list_ex_iff)
  from ex have ne: "?pre \<noteq> []"
    by (simp add: dropWhile_eq_Nil_conv)
  have gt': "CHR ''>'' \<notin> set ?pre"
    using gt by (auto dest: set_dropWhileD)
  from ne gt' show "\<not> startswith_gt (strip (member_line (pre, ident, post)))"
    by (cases ?pre) (auto simp: s)
  from assms have "ident \<noteq> []" "newline \<notin> set ident"
    and "\<forall>k. 1 \<le> k \<and> k < length ident \<longrightarrow> take 3 (drop k (ident @ ''...'')) \<noteq> ''...''"
    by (auto simp: wf_member_def ends_at_first_dots_def list_all_iff)
  then have "lazy_group [] (ident @ ''...'' @ ?post) = Some ([] @ ident, ?post)"
    by (rule lazy_group_ident)
  then have "SEQID (?pre @ CHR ''>'' # ident @ ''...'' @ ?post) = ident # SEQID ?post"
    using SEQID_skip [OF gt'] by simp
  then show "\<exists>rest. SEQID (strip (member_line (pre, ident, post))) = ident # rest"
    by (simp add: s)
qed

lemma groupby_head:
  "ys \<noteq> [] \<Longrightarrow> \<exists>g rest. groupby key ys = (key (hd ys), g) # rest"
  by (cases ys) (auto split: list.splits)

lemma groupby_run:
  "xs \<noteq> [] \<Longrightarrow> \<forall>x\<in>set xs. key x = k \<Longrightarrow> ys = [] \<or> key (hd ys) \<noteq> k \<Longrightarrow>
   groupby key (xs @ ys) = (k, xs) # groupby key ys"
proof (induction xs)
  case Nil
  then show ?case by simp
next
  case (Cons x xs)
  show ?case
  proof (cases "xs = []")
    case True
    show ?thesis
    proof (cases "ys = []")
      case True
      with \<open>xs = []\<close> Cons.prems show ?thesis by simp
    next
      case False
      then obtain g rest where "groupby key ys = (key (hd ys), g) # rest"
        using groupby_head by blast
      with \<open>xs = []\<close> Cons.prems False show ?thesis by simp
    qed
  next
    case False
    then have "groupby key (xs @ ys) = (k, xs) # groupby key ys"
      using Cons by simp
    with Cons.prems show ?thesis by simp
  qed
qed


lemma stripped_lines:
  "list_all wf_block blocks \<Longrightarrow>
   filter truthy (map strip (report_lines blocks)) =
     concat (map (\<lambda>b. strip (fst b) # stripped_block b) blocks)"
proof (induction blocks)
  case Nil
  then show ?case by (simp add: report_lines_def)
next
  case (Cons b bs)
  obtain h ms where b: "b = (h, ms)" by (cases b)
  from Cons.prems b have h: "truthy (strip h)"
    by (cases "strip h") (auto simp: wf_block_def truthy_def)
  from Cons.prems b have "\<forall>m\<in>set ms. truthy (strip (member_line m))"
    using member_line_stripped(1) by (auto simp: wf_block_def list_all_iff)
  then have ms: "filter truthy (map (\<lambda>m. strip (member_line m)) ms) = map (\<lambda>m. strip (member_line m)) ms"
    by (induction ms) auto
  from Cons have "filter truthy (map strip (report_lines bs)) =
     concat (map (\<lambda>b. strip (fst b) # stripped_block b) bs)" by simp
  with h ms show ?case
    by (simp add: report_lines_def b stripped_block_def comp_def)
qed

lemma groupby_blocks:
  "list_all wf_block blocks \<Longrightarrow>
   groupby startswith_gt (concat (map (\<lambda>b. strip (fst b) # stripped_block b) blocks)) =
     concat (map (\<lambda>b. [(True, [strip (fst b)]), (False, stripped_block b)]) blocks)"
proof (induction blocks)
  case Nil
  then show ?case by simp
next
  case (Cons b bs)
  let ?rest = "concat (map (\<lambda>b. strip (fst b) # stripped_block b) bs)"
  obtain h ms where b: "b = (h, ms)" by (cases b)
  from Cons.prems b have h: "startswith_gt (strip h)" and ne: "ms \<noteq> []"
    and wf: "\<forall>m\<in>set ms. wf_member m"
    by (auto simp: wf_block_def list_all_iff)
  have IH: "groupby startswith_gt ?rest =
     concat (map (\<lambda>b. [(True, [strip (fst b)]), (False, stripped_block b)]) bs)"
    using Cons by simp
  have hd_rest: "?rest = [] \<or> startswith_gt (hd ?rest) \<noteq> False"
  proof (cases bs)
    case Nil
    then show ?thesis by simp
  next
    case (Cons b' bs')
    with Cons.prems have "startswith_gt (strip (fst b'))"
      by (cases b') (auto simp: wf_block_def)
    with Cons show ?thesis by simp
  qed
  have keys: "\<forall>x\<in>set (stripped_block b). startswith_gt x = False"
    using wf member_line_stripped(2) by (auto simp: stripped_block_def b)
  have ne': "stripped_block b \<noteq> []"
    using ne by (simp add: stripped_block_def b)
  have members: "groupby startswith_gt (stripped_block b @ ?rest) =
      (False, stripped_block b) # groupby startswith_gt ?rest"
    using groupby_run [OF ne' keys hd_rest] .
  have "groupby startswith_gt ([strip h] @ (stripped_block b @ ?rest)) =
      (True, [strip h]) # groupby startswith_gt (stripped_block b @ ?rest)"
  proof (rule groupby_run)
    show "[strip h] \<noteq> []" by simp
    show "\<forall>x\<in>set [strip h]. startswith_gt x = True" using h by simp
    show "stripped_block b @ ?rest = [] \<or> startswith_gt (hd (stripped_block b @ ?rest)) \<noteq> True"
      using ne' keys by (cases "stripped_block b") auto
  qed
  with members IH show ?case by (simp add: b)
qed

lemma member_groups_report:
  "list_all wf_block blocks \<Longrightarrow> member_groups (report_lines blocks) = map stripped_block blocks"
proof -
  assume wf: "list_all wf_block blocks"
  have "map snd (filter (\<lambda>x. \<not> fst x)
          (concat (map (\<lambda>b. [(True, [strip (fst b)]), (False, stripped_block b)]) blocks)))
        = map stripped_block blocks"
    by (induction blocks) auto
  then show ?thesis
    by (simp add: member_groups_def stripped_lines [OF wf] groupby_blocks [OF wf])
qed

lemma seqids_of_members:
  "list_all wf_member ms \<Longrightarrow>
   seqids_of (map (\<lambda>m. strip (member_line m)) ms) = Inr (map ident_of ms)"
proof (induction ms)
  case Nil
  then show ?case by simp
next
  case (Cons m ms)
  obtain pre ident post where m: "m = (pre, ident, post)" by (cases m)
  from Cons.prems m have "wf_member (pre, ident, post)" by simp
  then obtain rest where "SEQID (strip (member_line m)) = ident # rest"
    unfolding m using member_line_stripped(3) by blast
  with Cons m show ?case by (simp add: ident_of_def)
qed

lemma consume_kept:
  "consume (map (\<lambda>g. Inr (f g)) gs) =
     (map the (filter truthy_opt (map f gs)), None)"
proof (induction gs)
  case Nil
  then show ?case by simp
next
  case (Cons g gs)
  then show ?case by (cases "f g") auto
qed

text \<open>
  Claim C1. The text \<open>>ref...\n>seqA...\n>seqB...\n>ref2...\n\<close> does not parse to the
  clusters \<open>[[ref, seqA, seqB], [ref2]]\<close>: each of its lines starts with \<open>>\<close>, so all four
  form one run of header lines, which the parser discards, and no cluster is yielded.
\<close>

theorem C1_all_header_lines_counterexample:
  "parse_cdhit_clusters False
     (file_lines ''>ref...\<newline>>seqA...\<newline>>seqB...\<newline>>ref2...\<newline>'')
   \<noteq> ([[''ref'', ''seqA'', ''seqB''], [''ref2'']], None)"
  by code_simp

text \<open>
  Claim C1, amended. The text of the claim yields no cluster, whatever \<open>drop_empty\<close> is.
  With a header line before each cluster and member lines that do not start with \<open>>\<close>,
  the report \<open>>Cluster 0\n0 >ref...\n1 >seqA...\n2 >seqB...\n>Cluster 1\n0 >ref2...\n\<close>
  yields \<open>[[ref, seqA, seqB], [ref2]]\<close> when \<open>drop_empty\<close> is false and
  \<open>[[ref, seqA, seqB]]\<close> when it is true.
\<close>

theorem C1_report_with_headers:
  "parse_cdhit_clusters False
     (file_lines ''>ref...\<newline>>seqA...\<newline>>seqB...\<newline>>ref2...\<newline>'') = ([], None)
   \<and> parse_cdhit_clusters True
     (file_lines ''>ref...\<newline>>seqA...\<newline>>seqB...\<newline>>ref2...\<newline>'') = ([], None)
   \<and> parse_cdhit_clusters False
     (file_lines ''>Cluster 0\<newline>0 >ref...\<newline>1 >seqA...\<newline>2 >seqB...\<newline>>Cluster 1\<newline>0 >ref2...\<newline>'')
     = ([[''ref'', ''seqA'', ''seqB''], [''ref2'']], None)
   \<and> parse_cdhit_clusters True
     (file_lines ''>Cluster 0\<newline>0 >ref...\<newline>1 >seqA...\<newline>2 >seqB...\<newline>>Cluster 1\<newline>0 >ref2...\<newline>'')
     = ([[''ref'', ''seqA'', ''seqB'']], None)"
  by code_simp

text \<open>
  Claim C3. For every report of well-formed blocks, \<open>parse_cdhit_clusters\<close> raises nothing
  and yields one identifier list per block, the blocks in report order and the
  identifiers in member-line order. With \<open>drop_empty\<close> false every list is kept; with
  \<open>drop_empty\<close> true exactly the lists of one identifier are discarded.
\<close>

theorem parse_cdhit_clusters_report:
  assumes "list_all wf_block blocks"
  shows "parse_cdhit_clusters False (report_lines blocks) = (map block_ids blocks, None)
       \<and> parse_cdhit_clusters True (report_lines blocks) =
           (filter (\<lambda>c. length c \<noteq> 1) (map block_ids blocks), None)"
proof -
  have ids: "\<forall>b\<in>set blocks. seqids_of (stripped_block b) = Inr (block_ids b) \<and> block_ids b \<noteq> []"
    using assms seqids_of_members
    by (auto simp: list_all_iff wf_block_def stripped_block_def block_ids_def)
  have keep: "map (transform_cluster False) (map stripped_block blocks) =
      map (\<lambda>b. Inr (Some (block_ids b))) blocks"
    using ids by (simp add: transform_cluster_def)
  have drop: "map (transform_cluster True) (map stripped_block blocks) =
      map (\<lambda>b. Inr (if length (block_ids b) > 1 then Some (block_ids b) else None)) blocks"
    using ids by (simp add: transform_cluster_def)
  have r1: "map the (filter truthy_opt (map (\<lambda>b. Some (block_ids b)) blocks)) = map block_ids blocks"
    using ids by (induction blocks) (auto simp: truthy_def)
  have r2: "map the (filter truthy_opt
              (map (\<lambda>b. if length (block_ids b) > 1 then Some (block_ids b) else None) blocks))
            = filter (\<lambda>c. length c \<noteq> 1) (map block_ids blocks)"
    using ids
  proof (induction blocks)
    case Nil
    then show ?case by simp
  next
    case (Cons b bs)
    then have "block_ids b \<noteq> []" by simp
    then have "length (block_ids b) > 1 \<longleftrightarrow> length (block_ids b) \<noteq> 1"
      by (cases "block_ids b") auto
    with Cons show ?case by (auto simp: truthy_def)
  qed
  have "parse_cdhit_clusters False (report_lines blocks) = (map block_ids blocks, None)"
    unfolding parse_cdhit_clusters_def member_groups_report [OF assms] keep
    using consume_kept [of "\<lambda>b. Some (block_ids b)" blocks] r1 by simp
  moreover have "parse_cdhit_clusters True (report_lines blocks) =
      (filter (\<lambda>c. length c \<noteq> 1) (map block_ids blocks), None)"
    unfolding parse_cdhit_clusters_def member_groups_report [OF assms] drop
    using consume_kept [of "\<lambda>b. if length (block_ids b) > 1 then Some (block_ids b) else None" blocks] r2
    by simp
  ultimately show ?thesis by simp
qed

theorem parse_cdhit_clusters_report_witness:
  "list_all wf_block
     [(''>Cluster 0'', [(''0 100nt, '', ''ref.1'', '' *''), (''1 90nt, '', ''seqA'', '' at +/98%'')]),
      ('' >Cluster 1 '', [(''0 80nt, '', ''ref2'', '' *\<newline>'')])]
   \<and> parse_cdhit_clusters False
       [''>Cluster 0'', ''0 100nt, >ref.1... *'', ''1 90nt, >seqA... at +/98%'',
        '' >Cluster 1 '', ''0 80nt, >ref2... *\<newline>'']
     = ([[''ref.1'', ''seqA''], [''ref2'']], None)
   \<and> parse_cdhit_clusters True
       [''>Cluster 0'', ''0 100nt, >ref.1... *'', ''1 90nt, >seqA... at +/98%'',
        '' >Cluster 1 '', ''0 80nt, >ref2... *\<newline>'']
     = ([[''ref.1'', ''seqA'']], None)"
proof -
  let ?blocks =
    "[(''>Cluster 0'', [(''0 100nt, '', ''ref.1'', '' *''), (''1 90nt, '', ''seqA'', '' at +/98%'')]),
      ('' >Cluster 1 '', [(''0 80nt, '', ''ref2'', '' *\<newline>'')])]"
  have wf: "list_all wf_block ?blocks"
    by code_simp
  show ?thesis
    using wf parse_cdhit_clusters_report [OF wf]
    by (simp add: report_lines_def member_line_def block_ids_def ident_of_def)
qed

lemma groupby_Nil: "groupby key xs = [] \<longleftrightarrow> xs = []"
  by (cases xs) (auto split: list.splits)

lemma groupby_concat_filter:
  "concat (map snd (filter (\<lambda>x. P (fst x)) (groupby key xs))) = filter (\<lambda>x. P (key x)) xs"
proof (induction xs)
  case Nil
  then show ?case by simp
next
  case (Cons x xs)
  show ?case
  proof (cases "groupby key xs")
    case Nil
    then have "xs = []" by (simp add: groupby_Nil)
    then show ?thesis by simp
  next
    case (Cons kg rest)
    obtain k g where kg: "kg = (k, g)" by (cases kg)
    from Cons.IH Cons kg show ?thesis by auto
  qed
qed

lemma member_groups_lines:
  "concat (member_groups handle) =
     filter (\<lambda>x. \<not> startswith_gt x) (filter truthy (map strip handle))"
  unfolding member_groups_def by (rule groupby_concat_filter)

lemma seqids_of_raises:
  "l \<in> set cluster \<Longrightarrow> SEQID l = [] \<Longrightarrow> seqids_of cluster = Inl IndexError"
  by (induction cluster) (auto split: list.splits sum.splits)

lemma seqids_of_IndexError: "seqids_of cluster = Inl e \<Longrightarrow> e = IndexError"
  by (induction cluster arbitrary: e) (auto split: list.splits sum.splits)

lemma transform_cluster_IndexError: "transform_cluster d cluster = Inl e \<Longrightarrow> e = IndexError"
  by (auto simp: transform_cluster_def split: sum.splits dest: seqids_of_IndexError)

lemma consume_raises:
  "Inl e \<in> set rs \<Longrightarrow> \<forall>e'. Inl e' \<in> set rs \<longrightarrow> e' = e \<Longrightarrow> snd (consume rs) = Some e"
proof (induction rs)
  case Nil
  then show ?case by simp
next
  case (Cons r rs)
  show ?case
  proof (cases r)
    case (Inl e')
    with Cons.prems(2) have "e' = e" by simp
    with Inl show ?thesis by simp
  next
    case (Inr v)
    with Cons.prems(1) have 1: "Inl e \<in> set rs" by simp
    from Cons.prems(2) have 2: "\<forall>e'. Inl e' \<in> set rs \<longrightarrow> e' = e" by simp
    from Cons.IH [OF 1 2] Inr show ?thesis by (cases "consume rs") simp
  qed
qed

lemma parse_raises_IndexError:
  assumes "l \<in> set handle" "truthy (strip l)" "\<not> startswith_gt (strip l)" "SEQID (strip l) = []"
  shows "snd (parse_cdhit_clusters d handle) = Some IndexError"
proof -
  from assms(1-3) have "strip l \<in> set (concat (member_groups handle))"
    by (simp add: member_groups_lines)
  then obtain g where g: "g \<in> set (member_groups handle)" and l: "strip l \<in> set g"
    by auto
  from l assms(4) have "seqids_of g = Inl IndexError"
    by (rule seqids_of_raises)
  then have "transform_cluster d g = Inl IndexError"
    by (simp add: transform_cluster_def)
  with g have "Inl IndexError \<in> set (map (transform_cluster d) (member_groups handle))"
    by force
  moreover have "\<forall>e'. Inl e' \<in> set (map (transform_cluster d) (member_groups handle))
      \<longrightarrow> e' = IndexError"
  proof (intro allI impI)
    fix e' assume "Inl e' \<in> set (map (transform_cluster d) (member_groups handle))"
    then obtain g' where "Inl e' = transform_cluster d g'" by auto
    then show "e' = IndexError"
      using transform_cluster_IndexError [of d g' e'] by simp
  qed
  ultimately show ?thesis
    unfolding parse_cdhit_clusters_def by (rule consume_raises)
qed

lemma lazy_group_no_newline:
  "lazy_group acc s = Some (g, r) \<Longrightarrow> newline \<notin> set acc \<Longrightarrow> newline \<notin> set g \<and> g \<noteq> []"
  by (induction acc s rule: lazy_group.induct) (auto split: if_splits)

lemma SEQID_no_newline: "g \<in> set (SEQID s) \<Longrightarrow> newline \<notin> set g \<and> g \<noteq> []"
proof (induction s rule: SEQID.induct)
  case 1
  then show ?case by simp
next
  case (2 c cs)
  show ?case
  proof (cases "c = CHR ''>''")
    case False
    with 2 show ?thesis by simp
  next
    case True
    show ?thesis
    proof (cases "lazy_group [] cs")
      case None
      with True 2 show ?thesis by simp
    next
      case (Some gr)
      obtain g' r where gr: "gr = (g', r)" by (cases gr)
      from Some gr have g': "newline \<notin> set g' \<and> g' \<noteq> []"
        using lazy_group_no_newline [of "[]" cs g' r] by simp
      from "2.prems" True Some gr have "g = g' \<or> g \<in> set (SEQID r)" by simp
      then show ?thesis
      proof
        assume "g = g'"
        with g' show ?thesis by simp
      next
        assume "g \<in> set (SEQID r)"
        then show ?thesis
          using "2.IH"(2) [OF True Some gr [symmetric]] by simp
      qed
    qed
  qed
qed

lemma seqids_of_no_newline:
  "seqids_of cluster = Inr ids \<Longrightarrow> i \<in> set ids \<Longrightarrow> newline \<notin> set i"
proof (induction cluster arbitrary: ids)
  case Nil
  then show ?case by simp
next
  case (Cons l ls)
  from Cons.prems(1) obtain m rest ms where m: "SEQID l = m # rest"
    and ms: "seqids_of ls = Inr ms" and ids: "ids = m # ms"
    by (auto split: list.splits sum.splits)
  from m have "newline \<notin> set m"
    using SEQID_no_newline [of m l] by simp
  with Cons.IH [OF ms] Cons.prems(2) ids show ?case by auto
qed

lemma consume_yields:
  "c \<in> set (fst (consume rs)) \<Longrightarrow> c \<noteq> [] \<and> Inr (Some c) \<in> set rs"
proof (induction rs arbitrary: c)
  case Nil
  then show ?case by simp
next
  case (Cons r rs)
  show ?case
  proof (cases r)
    case (Inl e)
    with Cons.prems show ?thesis by simp
  next
    case (Inr v)
    obtain cs e where cr: "consume rs = (cs, e)" by (cases "consume rs")
    show ?thesis
    proof (cases v)
      case None
      with Inr cr Cons.prems have "c \<in> set (fst (consume rs))" by simp
      with Cons.IH show ?thesis by simp
    next
      case (Some c')
      with Inr cr Cons.prems have "(c = c' \<and> c' \<noteq> []) \<or> c \<in> set (fst (consume rs))"
        by (auto simp: truthy_def split: if_splits)
      with Cons.IH Inr Some show ?thesis by auto
    qed
  qed
qed

lemma parsed_clusters:
  assumes "c \<in> set (fst (parse_cdhit_clusters d handle))"
  shows "c \<noteq> [] \<and> (\<forall>i\<in>set c. newline \<notin> set i)"
proof -
  from assms have "c \<noteq> [] \<and> Inr (Some c) \<in> set (map (transform_cluster d) (member_groups handle))"
    unfolding parse_cdhit_clusters_def by (rule consume_yields)
  then have ne: "c \<noteq> []"
    and "Inr (Some c) \<in> set (map (transform_cluster d) (member_groups handle))"
    by simp_all
  then obtain g where "transform_cluster d g = Inr (Some c)" by auto
  then have "seqids_of g = Inr c"
    by (auto simp: transform_cluster_def split: sum.splits if_splits)
  then have "\<forall>i\<in>set c. newline \<notin> set i"
    using seqids_of_no_newline by blast
  with ne show ?thesis by simp
qed

section \<open>Properties of the cluster-membership file\<close>

lemma split_on_nonempty: "split_on sep s \<noteq> []"
  by (induction s) (auto split: list.splits)

lemma split_on_no_sep: "sep \<notin> set x \<Longrightarrow> split_on sep x = [x]"
  by (induction x) auto

lemma split_on_append:
  "sep \<notin> set x \<Longrightarrow> split_on sep (x @ sep # s) = x # split_on sep s"
  by (induction x) auto

lemma split_on_join:
  "xs \<noteq> [] \<Longrightarrow> \<forall>x\<in>set xs. sep \<notin> set x \<Longrightarrow> split_on sep (join sep xs) = xs"
  by (induction sep xs rule: join.induct) (auto simp: split_on_no_sep split_on_append)

lemma set_join: "set (join sep xs) \<subseteq> insert sep (\<Union>(set ` set xs))"
  by (induction sep xs rule: join.induct) auto

lemma file_lines_line:
  "newline \<notin> set l \<Longrightarrow> file_lines (l @ newline # s) = (l @ [newline]) # file_lines s"
  by (induction l) auto

lemma file_lines_print:
  "\<forall>l\<in>set ls. newline \<notin> set l \<Longrightarrow>
   file_lines (concat (map (\<lambda>l. l @ [newline]) ls)) = map (\<lambda>l. l @ [newline]) ls"
  by (induction ls) (auto simp: file_lines_line)

lemma chomp_line: "chomp (l @ [newline]) = l"
  by (simp add: chomp_def)

lemma tab_not_newline: "tab \<noteq> newline"
  by (simp add: tab_def newline_def)

lemma read_cluster_text:
  assumes "\<forall>c\<in>set clusters. c \<noteq> [] \<and> (\<forall>i\<in>set c. tab \<notin> set i \<and> newline \<notin> set i)"
  shows "read_clusters (cluster_text clusters) = clusters"
proof -
  have nl: "\<forall>l\<in>set (map (join tab) clusters). newline \<notin> set l"
  proof
    fix l assume "l \<in> set (map (join tab) clusters)"
    then obtain c where c: "c \<in> set clusters" and l: "l = join tab c" by auto
    show "newline \<notin> set l"
      using set_join [of tab c] assms c tab_not_newline unfolding l by fastforce
  qed
  have ctext: "cluster_text clusters = concat (map (\<lambda>l. l @ [newline]) (map (join tab) clusters))"
    by (simp add: cluster_text_def comp_def fun_eq_iff print_line_def cong: map_cong)
  have "read_clusters (cluster_text clusters) =
      map (\<lambda>l. split_on tab (chomp l)) (map (\<lambda>l. l @ [newline]) (map (join tab) clusters))"
    unfolding read_clusters_def ctext file_lines_print [OF nl] ..
  also have "\<dots> = map (\<lambda>c. split_on tab (join tab c)) clusters"
    by (simp add: comp_def chomp_line)
  also have "\<dots> = clusters"
    using assms by (induction clusters) (auto simp: split_on_join)
  finally show ?thesis .
qed

lemma parsed_clusters_roundtrip:
  assumes "\<forall>c\<in>set (fst (parse_cdhit_clusters d handle)). \<forall>i\<in>set c. tab \<notin> set i"
  shows "read_clusters (cluster_text (fst (parse_cdhit_clusters d handle))) =
           fst (parse_cdhit_clusters d handle)"
  using assms parsed_clusters [of _ d handle] by (intro read_cluster_text) blast

text \<open>
  Claim C7. For every list of clusters, each a non-empty list of identifiers without tab
  and newline, reading back the text that \<open>cdpick\<close> prints for them (one line per
  cluster, the identifiers joined by tabs) gives the same list of clusters. The clusters
  are arbitrary, so it does not matter with which \<open>drop_empty\<close> they were produced.
\<close>

theorem cluster_file_roundtrip:
  assumes "\<forall>c\<in>set clusters. c \<noteq> [] \<and> (\<forall>i\<in>set c. tab \<notin> set i \<and> newline \<notin> set i)"
  shows "read_clusters (cluster_text clusters) = clusters"
  using assms by (rule read_cluster_text)

theorem cluster_file_roundtrip_witness:
  "read_clusters (cluster_text [[''ref'', ''seqA'', ''seqB''], [''ref2'']])
     = [[''ref'', ''seqA'', ''seqB''], [''ref2'']]
   \<and> cluster_text [[''ref'', ''seqA'', ''seqB''], [''ref2'']]
     = ''ref'' @ [tab] @ ''seqA'' @ [tab] @ ''seqB'' @ [newline] @ ''ref2'' @ [newline]"
proof -
  have "\<forall>c\<in>set [[''ref'', ''seqA'', ''seqB''], [''ref2'']].
          c \<noteq> [] \<and> (\<forall>i\<in>set c. tab \<notin> set i \<and> newline \<notin> set i)"
    by (simp add: tab_def newline_def)
  from cluster_file_roundtrip [OF this] show ?thesis
    by (simp add: cluster_text_def print_line_def)
qed

section \<open>Properties of \<open>cdpick\<close>\<close>

lemma cdpick_body_exists:
  "os_path_exists (fs w) tmpdir \<Longrightarrow>
   cdpick_body en tmpdir input output d opts w =
     with_sample input
       (cdpick_with en input output (output_path en tmpdir output w)
          (tempout_path en tmpdir output w) d opts)
       (w\<lparr>drawn := drawn w + draws output\<rparr>)"
  by (cases "output") (simp_all add: cdpick_body_def util_randname_def output_path_def
      tempout_path_def draws_def)

lemma cdpick_body_missing:
  "\<not> os_path_exists (fs w) tmpdir \<Longrightarrow>
   cdpick_body en tmpdir input output d opts w = (Inl ValueError, w)"
  by (simp add: cdpick_body_def)

lemma cdpick_with_frame:
  "cdpick_with en input output output' tmp d opts w = (r, w') \<Longrightarrow>
   trace w' = trace w \<and> drawn w' = drawn w"
  unfolding cdpick_with_def
  by (auto split: prod.splits sum.splits option.splits)

lemma with_sample_fst: "fst (with_sample s body w) = fst (body (acquire s w))"
  by (simp add: with_sample_def split: prod.splits)

lemma fallible_snd: "snd (fallible kinds r) = snd r"
  by (cases r) (auto simp: fallible_def split: sum.splits)

lemma cdpick_trace:
  assumes "os_path_exists (fs w) tmpdir"
  shows "trace (snd (cdpick en tmpdir input output d opts w)) =
           trace w @ [Acquired (name input), Released (name input)]"
proof -
  let ?w2 = "acquire input (w\<lparr>drawn := drawn w + draws output\<rparr>)"
  obtain r w' where body: "cdpick_with en input output (output_path en tmpdir output w)
          (tempout_path en tmpdir output w) d opts ?w2 = (r, w')"
    by (cases "cdpick_with en input output (output_path en tmpdir output w)
          (tempout_path en tmpdir output w) d opts ?w2")
  then have "trace w' = trace ?w2"
    using cdpick_with_frame by blast
  then have "trace (release input w') = trace w @ [Acquired (name input), Released (name input)]"
    by (simp add: release_def acquire_def)
  then show ?thesis
    by (simp add: cdpick_def fallible_snd cdpick_body_exists [OF assms] with_sample_def body)
qed

lemma cdhit_paths:
  "cdhit en opts input output f = (Inr (Some (seqs, clusterfile)), f1) \<Longrightarrow>
   seqs = output \<and> clusterfile = output @ ''.clstr''"
  unfolding cdhit_def cdhit_body_def fallible_def
  by (auto simp: Let_def split: option.splits if_splits prod.splits sum.splits)

lemma write_clusters_done:
  "write_clusters d clusterfile output' f = (None, f2) \<Longrightarrow>
   f2 output' = Some (File (cluster_text (fst (parse_cdhit_clusters d
        (if output' = clusterfile then [] else
           (case f clusterfile of Some (File t) \<Rightarrow> file_lines t | _ \<Rightarrow> []))))))
   \<and> (\<forall>p. p \<noteq> output' \<longrightarrow> f2 p = f p)"
  unfolding write_clusters_def open_r_def open_w_def
  by (auto split: option.splits node.splits if_splits prod.splits sum.splits)

lemma os_remove_done: "os_remove f p = Inr f' \<Longrightarrow> f' = f(p := None)"
  unfolding os_remove_def by (auto split: option.splits node.splits)


lemma cdpick_with_success:
  assumes "cdpick_with en input output output' tmp d opts w = (Inr r, w')"
  shows "\<exists>f2 text. fs w' = (f2(tmp := None))(tmp @ ''.clstr'' := None)
           \<and> f2 output' = Some (File text)
           \<and> removed w' = removed w @ [tmp, tmp @ ''.clstr'']
           \<and> r = \<lparr>kind = SampleClusters, name = name input, files = [output'],
                   delete = (output = None)\<rparr>"
proof -
  from assms obtain seqs clusterfile f1 where
    c: "cdhit en opts (files input) tmp (fs w) = (Inr (Some (seqs, clusterfile)), f1)"
    unfolding cdpick_with_def
    by (auto split: prod.splits sum.splits option.splits)
  then have p: "seqs = tmp" "clusterfile = tmp @ ''.clstr''"
    using cdhit_paths by blast+
  from assms c obtain f2 where wr: "write_clusters d clusterfile output' f1 = (None, f2)"
    unfolding cdpick_with_def
    by (auto split: prod.splits sum.splits option.splits)
  from assms c wr obtain f3 where r1: "os_remove f2 seqs = Inr f3"
    unfolding cdpick_with_def
    by (auto split: prod.splits sum.splits option.splits)
  from assms c wr r1 obtain f4 where r2: "os_remove f3 clusterfile = Inr f4"
    unfolding cdpick_with_def
    by (auto split: prod.splits sum.splits option.splits)
  from assms c wr r1 r2 have res: "w' = w\<lparr>fs := f4, removed := removed w @ [seqs, clusterfile]\<rparr>"
    "r = \<lparr>kind = SampleClusters, name = name input, files = [output'],
          delete = (output = None)\<rparr>"
    unfolding cdpick_with_def by auto
  from r1 r2 have "f4 = (f2(seqs := None))(clusterfile := None)"
    using os_remove_done by blast
  moreover from wr obtain body where "f2 output' = Some (File body)"
    using write_clusters_done by blast
  ultimately show ?thesis
    using res p by auto
qed

lemma fallible_result:
  "fallible kinds r = (Inr (Some v), s) \<Longrightarrow> r = (Inr v, s)"
  by (cases r) (auto simp: fallible_def split: sum.splits if_splits)

lemma cdpick_tool_failure:
  assumes "os_path_exists (fs w) tmpdir"
    and "fst (cdhit_body en opts (files input) (tempout_path en tmpdir output w) (fs w)) = Inl RuntimeError"
  shows "fst (cdpick en tmpdir input output d opts w) = Inl TypeError"
proof -
  let ?tmp = "tempout_path en tmpdir output w"
  let ?out = "output_path en tmpdir output w"
  let ?w2 = "acquire input (w\<lparr>drawn := drawn w + draws output\<rparr>)"
  obtain f1 where "cdhit_body en opts (files input) ?tmp (fs w) = (Inl RuntimeError, f1)"
    using assms(2) by (cases "cdhit_body en opts (files input) ?tmp (fs w)") simp
  then have "cdhit en opts (files input) ?tmp (fs w) = (Inr None, f1)"
    by (simp add: cdhit_def fallible_def)
  moreover have "fs ?w2 = fs w" by (simp add: acquire_def)
  ultimately have "fst (cdpick_with en input output ?out ?tmp d opts ?w2) = Inl TypeError"
    by (simp add: cdpick_with_def)
  then have "fst (cdpick_body en tmpdir input output d opts w) = Inl TypeError"
    by (simp add: cdpick_body_exists [OF assms(1)] with_sample_fst)
  then show ?thesis
    by (cases "cdpick_body en tmpdir input output d opts w") (simp add: cdpick_def fallible_def)
qed

text \<open>
  Claim C4. When \<open>cdpick\<close> returns a \<open>SampleClusters\<close> resource, the paths it has removed
  are the tool's sequence file and its cluster report (the name drawn for the tool, and
  that name with \<open>.clstr\<close>) and no other, and the two do not exist afterwards, whether the
  output path was given by the caller or drawn. The resource wraps the output path and
  owns it exactly when no output path was given: releasing it deletes the output file in
  that case and no file otherwise. A path given by the caller still holds a file after
  the call, provided it is neither of the two names of the tool's artifacts nor a file
  that the input resource owns and deletes when the \<open>with\<close> block releases it.
\<close>

theorem cdpick_success_files:
  assumes "cdpick en tmpdir input output d opts w = (Inr (Some r), w')"
  shows "removed w' =
           removed w @ [tempout_path en tmpdir output w, tempout_path en tmpdir output w @ ''.clstr'']
       \<and> fs w' (tempout_path en tmpdir output w) = None
       \<and> fs w' (tempout_path en tmpdir output w @ ''.clstr'') = None
       \<and> files r = [output_path en tmpdir output w]
       \<and> delete r = (output = None)
       \<and> fs (release r w') =
           (if output = None then fs w' |` (- {output_path en tmpdir output w}) else fs w')
       \<and> (\<forall>out. output = Some out \<and> out \<noteq> tempout_path en tmpdir output w
              \<and> out \<noteq> tempout_path en tmpdir output w @ ''.clstr''
              \<and> (delete input \<longrightarrow> out \<notin> set (files input))
            \<longrightarrow> (\<exists>text. fs w' out = Some (File text)))"
proof -
  let ?tmp = "tempout_path en tmpdir output w"
  let ?out = "output_path en tmpdir output w"
  let ?w2 = "w\<lparr>drawn := drawn w + draws output\<rparr>"
  from assms have body: "cdpick_body en tmpdir input output d opts w = (Inr r, w')"
    unfolding cdpick_def by (rule fallible_result)
  then have ex: "os_path_exists (fs w) tmpdir"
    by (auto simp: cdpick_body_def split: if_splits)
  obtain r0 w0 where wb: "cdpick_with en input output ?out ?tmp d opts (acquire input ?w2) = (r0, w0)"
    by (cases "cdpick_with en input output ?out ?tmp d opts (acquire input ?w2)")
  with body have r0: "r0 = Inr r" and w': "w' = release input w0"
    by (simp_all add: cdpick_body_exists [OF ex] with_sample_def)
  from wb r0 obtain f2 content where
    f: "fs w0 = (f2(?tmp := None))(?tmp @ ''.clstr'' := None)"
    and o: "f2 ?out = Some (File content)"
    and rm: "removed w0 = removed (acquire input ?w2) @ [?tmp, ?tmp @ ''.clstr'']"
    and r: "r = \<lparr>kind = SampleClusters, name = name input, files = [?out],
                 delete = (output = None)\<rparr>"
    using cdpick_with_success by blast
  have 1: "fs w' ?tmp = None" "fs w' (?tmp @ ''.clstr'') = None"
    by (simp_all add: w' release_def f restrict_map_def)
  have 2: "files r = [?out]" "delete r = (output = None)"
    "fs (release r w') = (if output = None then fs w' |` (- {?out}) else fs w')"
    by (simp_all add: r release_def)
  have 3: "\<exists>text. fs w' out = Some (File text)"
    if "output = Some out" "out \<noteq> ?tmp" "out \<noteq> ?tmp @ ''.clstr''"
       "delete input \<longrightarrow> out \<notin> set (files input)" for out
  proof -
    from that(1) have "?out = out" by (simp add: output_path_def)
    with o that show ?thesis
      by (auto simp: w' release_def f restrict_map_def)
  qed
  have 0: "removed w' = removed w @ [?tmp, ?tmp @ ''.clstr'']"
    by (simp add: w' release_def rm acquire_def)
  from 0 1 2 3 show ?thesis by blast
qed

theorem cdpick_success_files_witness:
  "fst (cdpick (example_env (\<lambda>c. 0) example_report) ''/tmp'' (example_sample ''a'' True)
          (Some ''/data/a.clusters'') False example_options example_world)
     = Inr (Some \<lparr>kind = SampleClusters, name = ''a'', files = [''/data/a.clusters''],
                   delete = False\<rparr>)
   \<and> removed (snd (cdpick (example_env (\<lambda>c. 0) example_report) ''/tmp''
          (example_sample ''a'' True) (Some ''/data/a.clusters'') False example_options
          example_world)) = [''/tmp/tmp0'', ''/tmp/tmp0.clstr'']
   \<and> fs (snd (cdpick (example_env (\<lambda>c. 0) example_report) ''/tmp'' (example_sample ''a'' True)
          (Some ''/data/a.clusters'') False example_options example_world)) ''/tmp/tmp0'' = None
   \<and> fs (snd (cdpick (example_env (\<lambda>c. 0) example_report) ''/tmp'' (example_sample ''a'' True)
          (Some ''/data/a.clusters'') False example_options example_world)) ''/tmp/tmp0.clstr'' = None
   \<and> (\<exists>text. fs (snd (cdpick (example_env (\<lambda>c. 0) example_report) ''/tmp''
          (example_sample ''a'' True) (Some ''/data/a.clusters'') False example_options
          example_world)) ''/data/a.clusters'' = Some (File text))
   \<and> fst (cdpick (example_env (\<lambda>c. 0) example_report) ''/tmp'' (example_sample ''a'' True)
          None False example_options example_world)
     = Inr (Some \<lparr>kind = SampleClusters, name = ''a'', files = [''/tmp/tmp0''],
                   delete = True\<rparr>)
   \<and> fs (snd (cdpick (example_env (\<lambda>c. 0) example_report) ''/tmp'' (example_sample ''a'' True)
          None False example_options example_world)) ''/tmp/tmp1'' = None
   \<and> fs (snd (cdpick (example_env (\<lambda>c. 0) example_report) ''/tmp'' (example_sample ''a'' True)
          None False example_options example_world)) ''/tmp/tmp1.clstr'' = None"
proof -
  let ?en = "example_env (\<lambda>c. 0) example_report"
  let ?c1 = "cdpick ?en ''/tmp'' (example_sample ''a'' True) (Some ''/data/a.clusters'') False
               example_options example_world"
  let ?c2 = "cdpick ?en ''/tmp'' (example_sample ''a'' True) None False
               example_options example_world"
  let ?r1 = "\<lparr>kind = SampleClusters, name = ''a'', files = [''/data/a.clusters''],
              delete = False\<rparr>"
  let ?r2 = "\<lparr>kind = SampleClusters, name = ''a'', files = [''/tmp/tmp0''], delete = True\<rparr>"
  have r1: "fst ?c1 = Inr (Some ?r1)" by code_simp
  have r2: "fst ?c2 = Inr (Some ?r2)" by code_simp
  have h1: "?c1 = (Inr (Some ?r1), snd ?c1)"
    using r1 by (simp add: prod_eq_iff)
  have h2: "?c2 = (Inr (Some ?r2), snd ?c2)"
    using r2 by (simp add: prod_eq_iff)
  have t1: "tempout_path ?en ''/tmp'' (Some ''/data/a.clusters'') example_world = ''/tmp/tmp0''"
    by code_simp
  have t2: "tempout_path ?en ''/tmp'' None example_world = ''/tmp/tmp1''"
    by code_simp
  have own: "files (example_sample ''a'' True) = [''/data/a.fa'']"
    by code_simp
  have rm: "removed example_world = []"
    by code_simp
  from cdpick_success_files [OF h1] have
    "removed (snd ?c1) = [''/tmp/tmp0'', ''/tmp/tmp0.clstr'']
     \<and> fs (snd ?c1) ''/tmp/tmp0'' = None \<and> fs (snd ?c1) ''/tmp/tmp0.clstr'' = None
     \<and> (\<exists>text. fs (snd ?c1) ''/data/a.clusters'' = Some (File text))"
    unfolding t1 own rm by simp
  moreover from cdpick_success_files [OF h2] have
    "fs (snd ?c2) ''/tmp/tmp1'' = None \<and> fs (snd ?c2) ''/tmp/tmp1.clstr'' = None"
    unfolding t2 by simp
  ultimately show ?thesis
    using r1 r2 by simp
qed

text \<open>
  Claim C5. With a temporary directory that does not exist, \<open>cdpick\<close> raises
  \<open>ValueError\<close> before the \<open>with\<close> statement is reached: the input is not released on
  this way out, and the file it owns is still there.
\<close>

theorem C5_missing_tmpdir_counterexample:
  "fst (cdpick (example_env (\<lambda>c. 0) example_report) ''/nowhere'' (example_sample ''a'' True)
          None False example_options example_world) = Inl ValueError
   \<and> Released ''a'' \<notin> set (trace (snd (cdpick (example_env (\<lambda>c. 0) example_report)
          ''/nowhere'' (example_sample ''a'' True) None False example_options example_world)))
   \<and> fs (snd (cdpick (example_env (\<lambda>c. 0) example_report)
          ''/nowhere'' (example_sample ''a'' True) None False example_options example_world))
          ''/data/a.fa'' = Some (File ''>a'')"
  by code_simp

text \<open>
  Claim C5, amended. When the temporary directory exists, the input is acquired and
  then released, once each and in this order, whatever the tool, the file system and the
  report do and whether \<open>cdpick\<close> returns a resource, returns nothing or raises. When the
  temporary directory does not exist, \<open>cdpick\<close> raises \<open>ValueError\<close> and the world is as
  before: the input has been neither acquired nor released.
\<close>

theorem cdpick_releases_input:
  "(os_path_exists (fs w) tmpdir \<longrightarrow>
      trace (snd (cdpick en tmpdir input output d opts w)) =
        trace w @ [Acquired (name input), Released (name input)])
   \<and> (\<not> os_path_exists (fs w) tmpdir \<longrightarrow>
      cdpick en tmpdir input output d opts w = (Inl ValueError, w))"
  using cdpick_trace [of w tmpdir en input "output" d opts]
  by (simp add: cdpick_def cdpick_body_missing fallible_def)

theorem cdpick_releases_input_witness:
  "os_path_exists (fs example_world) ''/tmp''
   \<and> fst (cdpick (example_env (\<lambda>c. 1) example_report) ''/tmp'' (example_sample ''a'' True)
          None False example_options example_world) = Inl TypeError
   \<and> trace (snd (cdpick (example_env (\<lambda>c. 1) example_report) ''/tmp'' (example_sample ''a'' True)
          None False example_options example_world)) = [Acquired ''a'', Released ''a'']
   \<and> fst (cdpick (example_env (\<lambda>c. 0) '' >x\<newline>no identifier'') ''/tmp''
          (example_sample ''a'' True) None False example_options example_world) = Inl IndexError
   \<and> trace (snd (cdpick (example_env (\<lambda>c. 0) '' >x\<newline>no identifier'') ''/tmp''
          (example_sample ''a'' True) None False example_options example_world))
       = [Acquired ''a'', Released ''a'']
   \<and> \<not> os_path_exists (fs example_world) ''/nowhere''
   \<and> cdpick (example_env (\<lambda>c. 0) example_report) ''/nowhere'' (example_sample ''a'' True)
          None False example_options example_world = (Inl ValueError, example_world)"
proof -
  have ex: "os_path_exists (fs example_world) ''/tmp''" by code_simp
  have nex: "\<not> os_path_exists (fs example_world) ''/nowhere''" by code_simp
  have tr: "trace example_world = []" by code_simp
  have nm: "name (example_sample ''a'' True) = ''a''" by code_simp
  have e1: "fst (cdpick (example_env (\<lambda>c. 1) example_report) ''/tmp'' (example_sample ''a'' True)
          None False example_options example_world) = Inl TypeError" by code_simp
  have e2: "fst (cdpick (example_env (\<lambda>c. 0) '' >x\<newline>no identifier'') ''/tmp''
          (example_sample ''a'' True) None False example_options example_world) = Inl IndexError"
    by code_simp
  show ?thesis
    using ex nex e1 e2
      cdpick_releases_input [of example_world "''/tmp''" "example_env (\<lambda>c. 1) example_report"
        "example_sample ''a'' True" None False example_options]
      cdpick_releases_input [of example_world "''/tmp''"
        "example_env (\<lambda>c. 0) '' >x\<newline>no identifier''"
        "example_sample ''a'' True" None False example_options]
      cdpick_releases_input [of example_world "''/nowhere''" "example_env (\<lambda>c. 0) example_report"
        "example_sample ''a'' True" None False example_options]
    by (simp add: tr nm)
qed

text \<open>
  Claim C10. If a member line of the report (a line that, stripped, is neither empty nor
  starts with \<open>>\<close>) has no identifier between \<open>>\<close> and three dots, consuming the parser's
  result raises \<open>IndexError\<close>, for either value of \<open>drop_empty\<close>. \<open>IndexError\<close> is not an
  instance of the kinds that the wrapper of \<open>cdpick\<close> absorbs, \<open>RuntimeError\<close> and
  \<open>FileNotFoundError\<close>. So when \<open>cdpick\<close> gets as far as parsing such a report (the
  temporary directory exists, the tool has succeeded and both files can be opened), it
  raises \<open>IndexError\<close> to its caller instead of returning an absent result.
\<close>

theorem cdpick_IndexError_propagates:
  assumes "l \<in> set handle" "truthy (strip l)" "\<not> startswith_gt (strip l)"
    and "SEQID (strip l) = []"
  shows "snd (parse_cdhit_clusters d handle) = Some IndexError
       \<and> \<not> list_ex (isinstance IndexError) [RuntimeError, FileNotFoundError]
       \<and> (os_path_exists (fs w) tmpdir
            \<and> cdhit en opts (files input) (tempout_path en tmpdir output w) (fs w)
                = (Inr (Some (seqs, clusterfile)), f1)
            \<and> f1 clusterfile = Some (File report) \<and> file_lines report = handle
            \<and> open_w f1 (output_path en tmpdir output w) = Inr f2
            \<and> output_path en tmpdir output w \<noteq> clusterfile
          \<longrightarrow> fst (cdpick en tmpdir input output d opts w) = Inl IndexError)"
proof -
  let ?tmp = "tempout_path en tmpdir output w"
  let ?out = "output_path en tmpdir output w"
  let ?w2 = "acquire input (w\<lparr>drawn := drawn w + draws output\<rparr>)"
  have A: "snd (parse_cdhit_clusters d handle) = Some IndexError"
    using assms by (rule parse_raises_IndexError)
  have B: "fst (cdpick en tmpdir input output d opts w) = Inl IndexError"
    if ex: "os_path_exists (fs w) tmpdir"
      and c: "cdhit en opts (files input) ?tmp (fs w) = (Inr (Some (seqs, clusterfile)), f1)"
      and r: "f1 clusterfile = Some (File report)" "file_lines report = handle"
      and o: "open_w f1 ?out = Inr f2" "?out \<noteq> clusterfile"
  proof -
    obtain cs where p: "parse_cdhit_clusters d handle = (cs, Some IndexError)"
      using A by (cases "parse_cdhit_clusters d handle") simp
    have wr: "write_clusters d clusterfile ?out f1 =
        (Some IndexError, f2(?out \<mapsto> File (cluster_text cs)))"
      using r o p by (simp add: write_clusters_def open_r_def)
    have "fs ?w2 = fs w" by (simp add: acquire_def)
    then have "fst (cdpick_with en input output ?out ?tmp d opts ?w2) = Inl IndexError"
      using c wr by (simp add: cdpick_with_def)
    then have "fst (cdpick_body en tmpdir input output d opts w) = Inl IndexError"
      by (simp add: cdpick_body_exists [OF ex] with_sample_fst)
    then show ?thesis
      by (cases "cdpick_body en tmpdir input output d opts w") (simp add: cdpick_def fallible_def)
  qed
  from A B show ?thesis by simp
qed

theorem cdpick_IndexError_propagates_witness:
  "''1 90nt, seqA at 98%\<newline>''
      \<in> set (file_lines ''>Cluster 0\<newline>0 100nt, >ref... *\<newline>1 90nt, seqA at 98%\<newline>'')
   \<and> SEQID (strip ''1 90nt, seqA at 98%\<newline>'') = []
   \<and> snd (parse_cdhit_clusters True
         (file_lines ''>Cluster 0\<newline>0 100nt, >ref... *\<newline>1 90nt, seqA at 98%\<newline>''))
       = Some IndexError
   \<and> fst (cdpick
         (example_env (\<lambda>c. 0) ''>Cluster 0\<newline>0 100nt, >ref... *\<newline>1 90nt, seqA at 98%\<newline>'')
         ''/tmp'' (example_sample ''a'' False) None True example_options example_world)
       = Inl IndexError"
proof -
  let ?report = "''>Cluster 0\<newline>0 100nt, >ref... *\<newline>1 90nt, seqA at 98%\<newline>''"
  let ?l = "''1 90nt, seqA at 98%\<newline>''"
  let ?en = "example_env (\<lambda>c. 0) ?report"
  let ?input = "example_sample ''a'' False"
  let ?cd = "cdhit ?en example_options (files ?input) ''/tmp/tmp1'' (fs example_world)"
  have l: "?l \<in> set (file_lines ?report)" by code_simp
  have t: "truthy (strip ?l)" by code_simp
  have g: "\<not> startswith_gt (strip ?l)" by code_simp
  have m: "SEQID (strip ?l) = []" by code_simp
  have ex: "os_path_exists (fs example_world) ''/tmp''" by code_simp
  have tmp: "tempout_path ?en ''/tmp'' None example_world = ''/tmp/tmp1''" by code_simp
  have out: "output_path ?en ''/tmp'' None example_world = ''/tmp/tmp0''" by code_simp
  have "fst ?cd = Inr (Some (''/tmp/tmp1'', ''/tmp/tmp1.clstr''))" by code_simp
  then have cd: "?cd = (Inr (Some (''/tmp/tmp1'', ''/tmp/tmp1.clstr'')), snd ?cd)"
    by (simp add: prod_eq_iff)
  have rep: "snd ?cd ''/tmp/tmp1.clstr'' = Some (File ?report)" by code_simp
  have ow: "open_w (snd ?cd) ''/tmp/tmp0'' = Inr ((snd ?cd)(''/tmp/tmp0'' \<mapsto> File []))"
  proof -
    have "snd ?cd ''/tmp/tmp0'' = None" by code_simp
    moreover have "dirname ''/tmp/tmp0'' = ''/tmp''" by code_simp
    moreover have "snd ?cd ''/tmp'' = Some Dir" by code_simp
    ultimately show ?thesis by (simp add: open_w_def)
  qed
  from cdpick_IndexError_propagates [OF l t g m, of True example_world "''/tmp''" ?en example_options
      ?input None "''/tmp/tmp1''" "''/tmp/tmp1.clstr''" "snd ?cd" ?report "(snd ?cd)(''/tmp/tmp0'' \<mapsto> File [])"]
  have "snd (parse_cdhit_clusters True (file_lines ?report)) = Some IndexError
     \<and> fst (cdpick ?en ''/tmp'' ?input None True example_options example_world) = Inl IndexError"
    unfolding tmp out using ex cd rep ow by simp
  with l m show ?thesis by simp
qed

section \<open>Batch clustering with one failing sample\<close>

text \<open>
  Claim C2. A batch of three samples in which the tool exits with return code 1 for the
  second sample and with 0 for the others. The wrapper of \<open>cdhit\<close> absorbs the
  \<open>RuntimeError\<close> of the failed run and \<open>cdhit\<close> returns nothing; \<open>cdpick\<close> unpacks that
  result into two names, which raises \<open>TypeError\<close>; the wrapper of \<open>cdpick\<close> does not
  absorb a \<open>TypeError\<close>, and the batch ends with it instead of yielding two records and
  an absent result. With return code 0 for every sample the same batch yields three
  records.
\<close>

theorem C2_tool_failure_aborts_batch:
  "fst (cdhit (example_env (\<lambda>c. if ''/data/b.fa'' \<in> set c then 1 else 0) example_report)
          example_options [''/data/b.fa''] ''/tmp/tmp1'' (fs example_world)) = Inr None
   \<and> fst (cdpick (example_env (\<lambda>c. if ''/data/b.fa'' \<in> set c then 1 else 0) example_report)
          ''/tmp'' (example_sample ''b'' False) None False example_options example_world)
       = Inl TypeError
   \<and> fst (cdpick_multiple
          (example_env (\<lambda>c. if ''/data/b.fa'' \<in> set c then 1 else 0) example_report)
          ''/tmp'' (\<lambda>s. None) False example_options
          [example_sample ''a'' False, example_sample ''b'' False, example_sample ''c'' False]
          example_world)
       = Inl TypeError
   \<and> fst (cdpick_multiple (example_env (\<lambda>c. 0) example_report)
          ''/tmp'' (\<lambda>s. None) False example_options
          [example_sample ''a'' False, example_sample ''b'' False, example_sample ''c'' False]
          example_world)
       = Inr [Some \<lparr>kind = SampleClusters, name = ''a'', files = [''/tmp/tmp0''], delete = True\<rparr>,
              Some \<lparr>kind = SampleClusters, name = ''b'', files = [''/tmp/tmp2''], delete = True\<rparr>,
              Some \<lparr>kind = SampleClusters, name = ''c'', files = [''/tmp/tmp4''], delete = True\<rparr>]"
  by code_simp

section \<open>Properties of the pipeline compiler\<close>

lemma find_filter:
  "find P xs = (case filter P xs of [] \<Rightarrow> None | x # _ \<Rightarrow> Some x)"
  by (induction xs) auto

lemma pcompile_prefix:
  "carried pre t0 = Some t \<Longrightarrow> pcompile rest t = Inl e \<Longrightarrow> pcompile (pre @ rest) t0 = Inl e"
proof (induction pre arbitrary: t0)
  case Nil
  then show ?case by simp
next
  case (Cons r rs)
  from Cons.prems(1) obtain m where m: "find (\<lambda>m. in_type m = t0) (alternatives r) = Some m"
    and c: "carried rs (out_type m) = Some t"
    by (auto split: option.splits)
  from m obtain ms where "filter (\<lambda>m. in_type m = t0) (alternatives r) = m # ms"
    by (auto simp: find_filter split: list.splits)
  with Cons.IH [OF c Cons.prems(2)] show ?case by simp
qed

text \<open>
  Claim C6. If the stages before \<open>r\<close> each accept the type carried to them and \<open>r\<close> has no
  alternative for the type \<open>t\<close> that reaches it, then \<open>pcompile\<close> fails with the
  \<open>TypeMismatch\<close> that names \<open>r\<close>, the first incompatible stage, together with \<open>t\<close> and
  the input types \<open>r\<close> accepts; and the run is rejected with no transformation invoked,
  whatever the stages after \<open>r\<close> are.
\<close>

theorem pcompile_type_gap:
  assumes "carried pre t0 = Some t"
    and "list_all (\<lambda>m. in_type m \<noteq> t) (alternatives r)"
  shows "pcompile (pre @ r # post) t0 =
           Inl (TypeMismatch (stage_name r) t (map in_type (alternatives r)))
       \<and> run_pipeline (pre @ r # post) t0 st =
           (Rejected (TypeMismatch (stage_name r) t (map in_type (alternatives r))), [])"
proof -
  from assms(2) have "filter (\<lambda>m. in_type m = t) (alternatives r) = []"
    by (simp add: list_all_iff filter_empty_conv)
  then have "pcompile (r # post) t =
      Inl (TypeMismatch (stage_name r) t (map in_type (alternatives r)))"
    by simp
  with assms(1) have "pcompile (pre @ r # post) t0 =
      Inl (TypeMismatch (stage_name r) t (map in_type (alternatives r)))"
    by (rule pcompile_prefix)
  then show ?thesis by (simp add: run_pipeline_def)
qed

theorem pcompile_type_gap_witness:
  "carried [filter_stage, joiner_stage] MultiplePairedFastq = Some SamplePairedFastq
   \<and> pcompile [filter_stage, joiner_stage, filter_stage, joiner_stage] MultiplePairedFastq =
       Inl (TypeMismatch ''filter'' SamplePairedFastq [MultiplePairedFastq])
   \<and> run_pipeline [filter_stage, joiner_stage, filter_stage, joiner_stage] MultiplePairedFastq [] =
       (Rejected (TypeMismatch ''filter'' SamplePairedFastq [MultiplePairedFastq]), [])
   \<and> run_pipeline [filter_stage, joiner_stage] MultiplePairedFastq [] =
       (Finished [''filter'', ''joiner''], [''filter'', ''joiner''])"
proof -
  have c: "carried [filter_stage, joiner_stage] MultiplePairedFastq = Some SamplePairedFastq"
    by (simp add: filter_stage_def joiner_stage_def example_stage_def)
  have g: "list_all (\<lambda>m. in_type m \<noteq> SamplePairedFastq) (alternatives filter_stage)"
    by (simp add: filter_stage_def example_stage_def)
  have n: "stage_name filter_stage = ''filter''"
    "map in_type (alternatives filter_stage) = [MultiplePairedFastq]"
    by (simp_all add: filter_stage_def example_stage_def)
  have ok: "run_pipeline [filter_stage, joiner_stage] MultiplePairedFastq [] =
       (Finished [''filter'', ''joiner''], [''filter'', ''joiner''])"
    by (simp add: run_pipeline_def filter_stage_def joiner_stage_def example_stage_def)
  from pcompile_type_gap [OF c g, of "[joiner_stage]" "[]"] c ok show ?thesis
    by (simp add: n)
qed

section \<open>Properties of the filter stage and of the samples of the input table\<close>

lemma count_truthy:
  "sum_list (map (\<lambda>r. if truth r then 1 else 0) rs) = int (length (filter truth rs))"
  by (induction rs) auto

lemma size_filt_kept:
  "fst (size_filt parse truth nseq samples w) =
     filter (\<lambda>s. nseq \<le> int (length (filter truth (parse s)))) samples"
  by (induction samples arbitrary: w) (simp_all add: Let_def count_truthy case_prod_beta)

lemma size_filt_trace:
  "trace (snd (size_filt parse truth nseq samples w)) =
     trace w @ concat (map (\<lambda>s. if nseq \<le> int (length (filter truth (parse s)))
                                then [Parsed (name s)]
                                else [Parsed (name s), Released (name s)]) samples)"
  by (induction samples arbitrary: w)
     (simp_all add: Let_def count_truthy release_def case_prod_beta)

lemma size_filt_fs:
  "fs (snd (size_filt parse truth nseq samples w)) p =
     (if list_ex (\<lambda>s. \<not> nseq \<le> int (length (filter truth (parse s))) \<and> delete s
                        \<and> p \<in> set (files s)) samples
      then None else fs w p)"
proof (induction samples arbitrary: w)
  case Nil
  then show ?case by simp
next
  case (Cons s ss)
  show ?case
  proof (cases "nseq \<le> int (length (filter truth (parse s)))")
    case True
    with Cons show ?thesis
      by (simp add: Let_def count_truthy case_prod_beta)
  next
    case False
    with Cons show ?thesis
      by (auto simp: Let_def count_truthy release_def restrict_map_def)
  qed
qed

lemma table_samples_delete:
  "table_samples single_t rows = Inr samples \<Longrightarrow> s \<in> set samples \<Longrightarrow> \<not> delete s"
proof (induction single_t rows arbitrary: samples rule: table_samples.induct)
  case (1 single_t)
  then show ?case by simp
next
  case (2 single_t rows)
  then show ?case by simp
next
  case (3 single_t nm fls rows)
  from "3.prems"(1) obtain s0 ss where s0: "new_sample single_t nm fls False = Inr s0"
    and ss: "table_samples single_t rows = Inr ss" and eq: "samples = s0 # ss"
    by (auto split: sum.splits)
  from s0 have "\<not> delete s0"
    by (auto simp: new_sample_def split: if_splits)
  with "3.IH" [OF s0 ss] "3.prems"(2) eq show ?case by auto
qed

text \<open>
  Claim C8. For every list of samples and every \<open>nseq\<close>, the samples \<open>size_filt\<close> yields are
  those whose number of truthy records is at least \<open>nseq\<close>, in their original order. Every
  sample is parsed once, in order, and a dropped sample is released right after its
  records have been counted, before the next sample is parsed. Afterwards the files of
  the dropped samples that owned them are gone, and every other path is as before.
\<close>

theorem size_filt_filters:
  "fst (size_filt parse truth nseq samples w) =
     filter (\<lambda>s. nseq \<le> int (length (filter truth (parse s)))) samples
   \<and> trace (snd (size_filt parse truth nseq samples w)) =
     trace w @ concat (map (\<lambda>s. if nseq \<le> int (length (filter truth (parse s)))
                                then [Parsed (name s)]
                                else [Parsed (name s), Released (name s)]) samples)
   \<and> (\<forall>p. fs (snd (size_filt parse truth nseq samples w)) p =
       (if list_ex (\<lambda>s. \<not> nseq \<le> int (length (filter truth (parse s))) \<and> delete s
                        \<and> p \<in> set (files s)) samples
        then None else fs w p))"
  using size_filt_kept size_filt_trace size_filt_fs by blast

theorem size_filt_filters_witness:
  "fst (size_filt example_parse (\<lambda>r. r) 3
          [example_sample ''a'' True, example_sample ''b'' True, example_sample ''c'' True]
          example_world)
     = [example_sample ''b'' True, example_sample ''c'' True]
   \<and> trace (snd (size_filt example_parse (\<lambda>r. r) 3
          [example_sample ''a'' True, example_sample ''b'' True, example_sample ''c'' True]
          example_world))
     = [Parsed ''a'', Released ''a'', Parsed ''b'', Parsed ''c'']
   \<and> fs (snd (size_filt example_parse (\<lambda>r. r) 3
          [example_sample ''a'' True, example_sample ''b'' True, example_sample ''c'' True]
          example_world)) ''/data/a.fa'' = None
   \<and> fs (snd (size_filt example_parse (\<lambda>r. r) 3
          [example_sample ''a'' True, example_sample ''b'' True, example_sample ''c'' True]
          example_world)) ''/data/b.fa'' = Some (File ''>b'')
   \<and> fs (snd (size_filt example_parse (\<lambda>r. r) 3
          [example_sample ''a'' True, example_sample ''b'' True, example_sample ''c'' True]
          example_world)) ''/data/c.fa'' = Some (File ''>c'')"
  using size_filt_filters [of example_parse "\<lambda>r. r" 3
      "[example_sample ''a'' True, example_sample ''b'' True, example_sample ''c'' True]"
      example_world]
  by (simp add: example_parse_def example_sample_def example_world_def)

text \<open>
  Claim C9. Every sample that \<open>pipeline\<close> constructs from a row of the input table has
  \<open>delete = False\<close>. Releasing such a sample leaves the file system as it is, and so does
  the filter stage applied to these samples, whichever of them it drops.
\<close>

theorem pipeline_samples_not_owned:
  assumes "pipeline_samples dtype rows = Inr samples"
  shows "list_all (\<lambda>s. \<not> delete s) samples
       \<and> list_all (\<lambda>s. fs (release s w) = fs w) samples
       \<and> fs (snd (size_filt parse truth nseq samples w)) = fs w"
proof -
  from assms obtain single_t where "table_samples single_t rows = Inr samples"
    by (auto simp: pipeline_samples_def split: option.splits sum.splits prod.splits)
  then have d: "\<forall>s\<in>set samples. \<not> delete s"
    using table_samples_delete by blast
  then have "\<And>p. \<not> list_ex (\<lambda>s. \<not> nseq \<le> int (length (filter truth (parse s))) \<and> delete s
                        \<and> p \<in> set (files s)) samples"
    by (simp add: list_ex_iff)
  then have "fs (snd (size_filt parse truth nseq samples w)) = fs w"
    by (intro ext) (simp add: size_filt_fs)
  with d show ?thesis
    by (simp add: list_all_iff release_def)
qed

theorem pipeline_samples_not_owned_witness:
  "pipeline_samples ''fasta'' [[''a'', ''/data/a.fa''], [''b'', ''/data/b.fa'']]
     = Inr [example_sample ''a'' False, example_sample ''b'' False]
   \<and> list_all (\<lambda>s. \<not> delete s) [example_sample ''a'' False, example_sample ''b'' False]
   \<and> fs (release (example_sample ''a'' False) example_world) = fs example_world
   \<and> fs (release (example_sample ''b'' False) example_world) = fs example_world
   \<and> fs (snd (size_filt example_parse (\<lambda>r. r) 3
          [example_sample ''a'' False, example_sample ''b'' False] example_world))
     = fs example_world"
proof -
  have p: "pipeline_samples ''fasta'' [[''a'', ''/data/a.fa''], [''b'', ''/data/b.fa'']]
     = Inr [example_sample ''a'' False, example_sample ''b'' False]"
    by (simp add: pipeline_samples_def INPUT_DTYPE_DISPATCH_def new_sample_def example_sample_def)
  from pipeline_samples_not_owned [OF p, of example_world example_parse "\<lambda>r. r" 3] p
  show ?thesis by simp
qed

end
